theory Spec2Isabelle
  imports
    Complex_Main
    "HOL-Library.Char_ord"
    "HOL-Library.List_Lexorder"
    "HOL-Library.Product_Lexorder"
    "HOL-Library.Sublist"
    "HOL-Library.Multiset"
begin

text \<open>
  The script \<^verbatim>\<open>Table.py\<close> has two parts: the merge of the uploaded sheets into one
  table, and the report on an edited table, which derives seven summary tables and
  writes them one below the other on one worksheet. Each statement of the script is
  modelled by a function on the tables; the calls into pandas, numpy and openpyxl are
  modelled by what these libraries do at the call, errors included, for tables whose
  cells are text. The line numbers are those of the script.
\<close>

section \<open>Errors\<close>

text \<open>
  The script of \<^verbatim>\<open>Table.py\<close> catches no exception: whatever pandas, numpy or
  openpyxl raise ends the run. The two exception classes that the modelled calls raise
  are kept as values, each with its message argument.
\<close>

datatype error = KeyError string | ValueError string

section \<open>Merge Pipeline (lines 136 to 149)\<close>

subsection \<open>Uploaded sheets\<close>

text \<open>
  A sheet is what \<^verbatim>\<open>pd.read_excel\<close> returns: column labels, a row index and the
  rows. A row maps a column label to its cell; a label without a cell is a missing value.
  Reading the file itself belongs to the spreadsheet codec and is not modelled.
\<close>

datatype cell = Text string | Number int

record sheet =
  sheet_columns :: "string list"
  sheet_index :: "nat list"
  sheet_rows :: "(string \<rightharpoonup> cell) list"

record uploaded_file =
  name :: string
  content :: sheet

subsection \<open>The entity name of a file\<close>

text \<open>\<^verbatim>\<open>str.rfind\<close> for a one-character needle: the highest index, or -1.\<close>

definition rfind :: "char \<Rightarrow> string \<Rightarrow> int" where
  "rfind c p =
     (case filter (\<lambda>i. p ! i = c) (rev [0..<length p]) of
        [] \<Rightarrow> - 1
      | i # _ \<Rightarrow> int i)"

text \<open>
  \<^verbatim>\<open>os.path.splitext\<close> (posixpath): the extension starts at the last dot of the
  last path component, unless that component has nothing but dots before it. The
  \<^verbatim>\<open>while\<close> loop of the library returns at the first index in
  \<open>[sepIndex + 1, dotIndex)\<close> that holds a character other than a dot.
\<close>

definition splitext :: "string \<Rightarrow> string \<times> string" where
  "splitext p =
     (let sepIndex = rfind CHR ''/'' p;
          dotIndex = rfind CHR ''.'' p
      in if dotIndex > sepIndex
            \<and> list_ex (\<lambda>i. p ! i \<noteq> CHR ''.'') [nat (sepIndex + 1)..<nat dotIndex]
         then (take (nat dotIndex) p, drop (nat dotIndex) p)
         else (p, []))"

text \<open>\<^verbatim>\<open>s.split(sep)[0]\<close>: the part of \<open>s\<close> before the first occurrence of \<open>sep\<close>.\<close>

fun split_first :: "string \<Rightarrow> string \<Rightarrow> string" where
  "split_first sep [] = []"
| "split_first sep (c # cs) = (if prefix sep (c # cs) then [] else c # split_first sep cs)"

definition entity_name :: "string \<Rightarrow> string" where
  "entity_name file_name =
     (let filename_no_ext = fst (splitext file_name)
      in split_first '' - '' filename_no_ext)"

subsection \<open>Tagging and concatenation\<close>

text \<open>
  \<^verbatim>\<open>df_["Entity"] = entity_name\<close>: every row gets the cell; the label is appended to
  the columns unless the sheet has it already.
\<close>

definition set_column :: "string \<Rightarrow> cell \<Rightarrow> sheet \<Rightarrow> sheet" where
  "set_column c v df =
     df\<lparr>sheet_columns :=
          (if c \<in> set (sheet_columns df) then sheet_columns df else sheet_columns df @ [c]),
        sheet_rows := map (\<lambda>r. r(c \<mapsto> v)) (sheet_rows df)\<rparr>"

text \<open>
  \<^verbatim>\<open>pd.concat(dfs, axis=0, ignore_index=True)\<close>: the rows in the order of the list,
  the union of the column labels in order of first appearance, and a fresh index
  \<open>0, 1, ...\<close>.
\<close>

definition pd_concat :: "sheet list \<Rightarrow> sheet" where
  "pd_concat dfs =
     (let rs = concat (map sheet_rows dfs)
      in \<lparr>sheet_columns = rev (remdups (rev (concat (map sheet_columns dfs)))),
          sheet_index = [0..<length rs],
          sheet_rows = rs\<rparr>)"

definition tag_file :: "uploaded_file \<Rightarrow> sheet" where
  "tag_file uploaded_file =
     set_column ''Entity'' (Text (entity_name (name uploaded_file))) (content uploaded_file)"

text \<open>The \<^verbatim>\<open>for\<close> loop of lines 140 to 147 appends one tagged sheet per file.\<close>

definition combined_df :: "uploaded_file list \<Rightarrow> sheet" where
  "combined_df uploaded_files =
     pd_concat (foldl (\<lambda>dfs f. dfs @ [tag_file f]) [] uploaded_files)"

text \<open>\<^verbatim>\<open>if uploaded_files:\<close> guards the whole pipeline: without a file nothing is built.\<close>

definition merge_pipeline :: "uploaded_file list \<Rightarrow> sheet option" where
  "merge_pipeline uploaded_files =
     (if uploaded_files = [] then None else Some (combined_df uploaded_files))"

section \<open>Report Pipeline: aggregation (lines 170 to 228)\<close>

subsection \<open>The edited table\<close>

text \<open>
  A row of the edited sheet, with the five columns the pipeline reads. The cells of
  \<open>Entity\<close>, \<open>Publication Name\<close>, \<open>Publication Type\<close> and \<open>Journalist\<close> are
  text; a cell of \<open>Date\<close> is a calendar date (year, month, day), which is what
  \<^verbatim>\<open>pd.to_datetime(...).dt.normalize()\<close> leaves of it. Missing cells and cells of
  other types are outside this model.
\<close>

record news_row =
  Entity :: string
  Date :: "nat \<times> nat \<times> nat"
  Publication_Name :: string
  Publication_Type :: string
  Journalist :: string

subsection \<open>Frames of counts\<close>

text \<open>
  A frame of counts: the labels of its numeric columns, and per row the index label and
  one cell per column.
\<close>

record 'r ctab =
  ct_columns :: "string list"
  ct_rows :: "('r \<times> int list) list"

definition group_size :: "('a \<Rightarrow> bool) \<Rightarrow> 'a list \<Rightarrow> int" where
  "group_size P df = int (length (filter P df))"

text \<open>
  \<^verbatim>\<open>pd.crosstab(index, columns)\<close>: one row per value of the index key and one
  column per value of the column key, both sorted, each cell the number of rows of the
  table with that pair of values (0 where there is none).
\<close>

definition pd_crosstab ::
  "('a \<Rightarrow> 'r::linorder) \<Rightarrow> ('a \<Rightarrow> string) \<Rightarrow> 'a list \<Rightarrow> 'r ctab" where
  "pd_crosstab rk ck df =
     (let idx = sort (remdups (map rk df));
          cols = sort (remdups (map ck df))
      in \<lparr>ct_columns = cols,
          ct_rows = map (\<lambda>r. (r, map (\<lambda>c. group_size (\<lambda>x. rk x = r \<and> ck x = c) df) cols)) idx\<rparr>)"

datatype 'r rowlabel = Group 'r | Margin string

text \<open>
  \<^verbatim>\<open>pd.crosstab(..., margins=True, margins_name=m)\<close>. pandas raises
  \<^verbatim>\<open>ValueError\<close> (conflicting name in margins) when \<open>m\<close> is already an index or a
  column value; \<open>same\<close> says when an index value is the name (never, for an index of
  periods). It returns an empty table as it is, without margins. Otherwise every row
  gets the size of its group as last cell and a last row holds the size of every
  column's group and the number of rows of the data.
\<close>

definition pd_crosstab_margins ::
  "('r \<Rightarrow> string \<Rightarrow> bool) \<Rightarrow> string \<Rightarrow> ('a \<Rightarrow> 'r::linorder) \<Rightarrow> ('a \<Rightarrow> string) \<Rightarrow> 'a list
     \<Rightarrow> error + 'r rowlabel ctab" where
  "pd_crosstab_margins same margins_name rk ck df =
     (let t = pd_crosstab rk ck df
      in if list_ex (\<lambda>(r, cs). same r margins_name) (ct_rows t) \<or> margins_name \<in> set (ct_columns t)
         then Inl (ValueError ''Conflicting name in margins'')
         else if ct_rows t = []
         then Inr \<lparr>ct_columns = ct_columns t, ct_rows = []\<rparr>
         else Inr \<lparr>ct_columns = ct_columns t @ [margins_name],
                   ct_rows =
                     map (\<lambda>(r, cs). (Group r, cs @ [group_size (\<lambda>x. rk x = r) df])) (ct_rows t)
                     @ [(Margin margins_name,
                         map (\<lambda>c. group_size (\<lambda>x. ck x = c) df) (ct_columns t)
                         @ [int (length df)])]\<rparr>)"

definition label_text :: "string rowlabel \<Rightarrow> string" where
  "label_text l = (case l of Group s \<Rightarrow> s | Margin m \<Rightarrow> m)"

text \<open>The cell of a row under a column label (0 for a label the frame does not have).\<close>

definition value_at :: "string list \<Rightarrow> int list \<Rightarrow> string \<Rightarrow> int" where
  "value_at cols cells c = (case map_of (zip cols cells) c of Some v \<Rightarrow> v | None \<Rightarrow> 0)"

text \<open>
  \<^verbatim>\<open>t['Total'] = t.sum(axis=1)\<close>: the row sums become the column \<open>Total\<close>, appended
  unless the frame has a column of that label, which is then overwritten.
\<close>

definition assign_Total :: "'r ctab \<Rightarrow> 'r ctab" where
  "assign_Total t =
     (if ''Total'' \<in> set (ct_columns t)
      then t\<lparr>ct_rows :=
               map (\<lambda>(l, cs). (l, map (\<lambda>(c, v). if c = ''Total'' then sum_list cs else v)
                                      (zip (ct_columns t) cs))) (ct_rows t)\<rparr>
      else t\<lparr>ct_columns := ct_columns t @ [''Total''],
             ct_rows := map (\<lambda>(l, cs). (l, cs @ [sum_list cs])) (ct_rows t)\<rparr>)"

text \<open>
  \<^verbatim>\<open>sort_values(by, ascending=False)\<close>. Rows with equal keys are kept in their
  order here; pandas leaves their order to the sorting routine, and no property below
  depends on it.
\<close>

definition sort_values_desc :: "string list \<Rightarrow> string \<Rightarrow> ('r \<times> int list) list \<Rightarrow> ('r \<times> int list) list" where
  "sort_values_desc cols by_col rs = sort_key (\<lambda>(l, cs). - value_at cols cs by_col) rs"

text \<open>\<^verbatim>\<open>t.sum(numeric_only=True, axis=0)\<close> over \<open>n\<close> numeric columns.\<close>

definition column_sums :: "nat \<Rightarrow> int list list \<Rightarrow> int list" where
  "column_sums n css = map (\<lambda>i. sum_list (map (\<lambda>cs. cs ! i) css)) [0..<n]"

text \<open>
  \<^verbatim>\<open>t.loc[l] = v\<close>: the row labelled \<open>l\<close> is overwritten, and appended when the
  index has no such label.
\<close>

definition loc_set :: "'r \<Rightarrow> int list \<Rightarrow> 'r ctab \<Rightarrow> 'r ctab" where
  "loc_set l v t =
     (if l \<in> set (map fst (ct_rows t))
      then t\<lparr>ct_rows := map (\<lambda>(k, cs). if k = l then (k, v) else (k, cs)) (ct_rows t)\<rparr>
      else t\<lparr>ct_rows := ct_rows t @ [(l, v)]\<rparr>)"

text \<open>
  \<^verbatim>\<open>pd.DataFrame(t.to_records())\<close>: the index becomes the first column, under the
  name of the index. numpy refuses a record type in which a field name occurs twice.
\<close>

record rec_table =
  rt_index_name :: string
  rt_columns :: "string list"
  rt_recs :: "(string \<times> int list) list"

definition names :: "rec_table \<Rightarrow> string list" where
  "names t = rt_index_name t # rt_columns t"

definition to_records :: "string \<Rightarrow> ('r \<Rightarrow> string) \<Rightarrow> 'r ctab \<Rightarrow> error + rec_table" where
  "to_records index_name render t =
     (if index_name \<in> set (ct_columns t)
      then Inl (ValueError ''field occurs more than once'')
      else Inr \<lparr>rt_index_name = index_name,
                rt_columns = ct_columns t,
                rt_recs = map (\<lambda>(l, cs). (render l, cs)) (ct_rows t)\<rparr>)"

subsection \<open>Entity share of voice (lines 173 to 179)\<close>

text \<open>\<^verbatim>\<open>t.drop(columns=c, errors='ignore')\<close>.\<close>

definition drop_column :: "string \<Rightarrow> 'r ctab \<Rightarrow> 'r ctab" where
  "drop_column c t =
     t\<lparr>ct_columns := filter (\<lambda>x. x \<noteq> c) (ct_columns t),
       ct_rows := map (\<lambda>(l, cs). (l, map snd (filter (\<lambda>(x, v). x \<noteq> c) (zip (ct_columns t) cs))))
                      (ct_rows t)\<rparr>"

text \<open>
  The column \<open>%\<close> holds the results of \<^verbatim>\<open>(n / d * 100).round(2)\<close> and the 100
  assigned to the row \<open>Total\<close>. A cell keeps the integers it is computed from:
  \<open>Rounded n d\<close> for the rounded quotient of the counts \<open>n\<close> and \<open>d\<close>, \<open>Whole 100\<close>
  for the assigned number.
\<close>

datatype percent = Rounded int int | Whole int

text \<open>
  numpy rounds to the nearest integer and a tie to the even one; \<^verbatim>\<open>round(2)\<close>
  rounds 100 times the number and divides by 100.
\<close>

definition round_half_even :: "rat \<Rightarrow> int" where
  "round_half_even x =
     (let f = floor x; r = x - of_int f
      in if r < 1 / 2 then f
         else if 1 / 2 < r then f + 1
         else if even f then f
         else f + 1)"

definition np_round2 :: "rat \<Rightarrow> rat" where
  "np_round2 x = of_int (round_half_even (x * 100)) / 100"


record sov_table =
  sov_names :: "string list"
  sov_recs :: "(string \<times> int \<times> percent) list"

text \<open>
  The cross-tabulation has the single column \<open>News Count\<close>, and none when the table has
  no row: then \<^verbatim>\<open>df_no_total['News Count']\<close> raises \<^verbatim>\<open>KeyError\<close>.
\<close>

definition Entity_SOV :: "news_row list \<Rightarrow> error + sov_table" where
  "Entity_SOV df =
     (case pd_crosstab_margins (=) ''Total'' Entity (\<lambda>x. ''News Count'') df of
        Inl e \<Rightarrow> Inl e
      | Inr crossed \<Rightarrow>
          (let t = drop_column ''Total'' crossed;
               df_no_total = filter (\<lambda>(l, cs). label_text l \<noteq> ''Total'') (ct_rows t)
           in if ''News Count'' \<in> set (ct_columns t)
              then
                (let sum_no_total =
                       sum_list (map (\<lambda>(l, cs). value_at (ct_columns t) cs ''News Count'') df_no_total)
                 in Inr \<lparr>sov_names = [''Entity'', ''News Count'', ''%''],
                         sov_recs =
                           map (\<lambda>(l, cs).
                                  (label_text l,
                                   value_at (ct_columns t) cs ''News Count'',
                                   if label_text l = ''Total'' then Whole 100
                                   else Rounded (value_at (ct_columns t) cs ''News Count'') sum_no_total))
                               (ct_rows t)\<rparr>)
              else Inl (KeyError ''News Count'')))"

subsection \<open>Month on month (lines 180 and 181)\<close>

definition to_period_M :: "nat \<times> nat \<times> nat \<Rightarrow> nat \<times> nat" where
  "to_period_M d = (fst d, fst (snd d))"

definition sov_dt :: "news_row list \<Rightarrow> error + (nat \<times> nat) rowlabel ctab" where
  "sov_dt df = pd_crosstab_margins (\<lambda>p m. False) ''Total'' (\<lambda>x. to_period_M (Date x)) Entity df"

subsection \<open>Publication and publication type (lines 182 to 186 and 210 to 214)\<close>

text \<open>
  Both tables are built by the same five statements: the cross-tabulation against
  \<open>Entity\<close>, the column \<open>Total\<close>, the descending sort, the row \<open>GrandTotal\<close> of the
  column sums, and the conversion to records.
\<close>

definition totals_table :: "string \<Rightarrow> (news_row \<Rightarrow> string) \<Rightarrow> news_row list \<Rightarrow> error + rec_table" where
  "totals_table index_name key df =
     (let crossed = assign_Total (pd_crosstab key Entity df);
          sorted_t = crossed\<lparr>ct_rows := sort_values_desc (ct_columns crossed) ''Total'' (ct_rows crossed)\<rparr>;
          with_grand = loc_set ''GrandTotal''
                         (column_sums (length (ct_columns sorted_t)) (map snd (ct_rows sorted_t)))
                         sorted_t
      in to_records index_name (\<lambda>l. l) with_grand)"

definition Publication :: "news_row list \<Rightarrow> error + rec_table" where
  "Publication df = totals_table ''Publication Name'' Publication_Name df"

definition PType_Entity :: "news_row list \<Rightarrow> error + rec_table" where
  "PType_Entity df = totals_table ''Publication Type'' Publication_Type df"

subsection \<open>Journalist table (lines 187 to 208)\<close>

text \<open>\<^verbatim>\<open>s.split(c)\<close> for a one-character separator: never an empty list.\<close>

fun split_on :: "char \<Rightarrow> string \<Rightarrow> string list" where
  "split_on c [] = [[]]"
| "split_on c (x # xs) =
     (let parts = split_on c xs
      in if x = c then [] # parts else (x # hd parts) # tl parts)"

text \<open>
  \<^verbatim>\<open>df1['Journalist'] = df1['Journalist'].str.split(','); df1 = df1.explode('Journalist')\<close>:
  one row per name, the other cells copied.
\<close>

definition explode_Journalist :: "news_row list \<Rightarrow> news_row list" where
  "explode_Journalist df =
     concat (map (\<lambda>x. map (\<lambda>j. x\<lparr>Journalist := j\<rparr>) (split_on CHR '','' (Journalist x))) df)"

text \<open>
  \<^verbatim>\<open>pd.merge(jr_tab, newdata, how='inner', on Journalist)\<close>: the rows of the left
  frame in their order, each once per row of \<open>newdata\<close> with the same journalist, in the
  order of \<open>newdata\<close>. The label of a merged row is the journalist with the publication.
\<close>

definition pd_merge_inner ::
  "(string \<times> int list) list \<Rightarrow> (string \<times> string) list \<Rightarrow> ((string \<times> string) \<times> int list) list" where
  "pd_merge_inner left newdata =
     concat (map (\<lambda>(j, cs). map (\<lambda>(j', p). ((j, p), cs)) (filter (\<lambda>(j', p). j' = j) newdata)) left)"

text \<open>\<^verbatim>\<open>drop_duplicates(subset=[...], keep='first')\<close>, with the keys seen so far.\<close>

primrec drop_duplicates :: "('a \<Rightarrow> 'k) \<Rightarrow> 'k list \<Rightarrow> 'a list \<Rightarrow> 'a list" where
  "drop_duplicates key seen [] = []"
| "drop_duplicates key seen (x # xs) =
     (if key x \<in> set seen then drop_duplicates key seen xs
      else x # drop_duplicates key (key x # seen) xs)"

datatype row_id = Pos nat | Lbl string

record jour_row =
  jr_index :: row_id
  jr_Journalist :: "string option"
  jr_Publication_Name :: "string option"
  jr_cells :: "int list"

text \<open>
  The finished frame has the columns \<open>index\<close>, \<open>Journalist\<close>, \<open>Publication Name\<close> and
  the numeric columns \<open>jt_columns\<close>; the two text columns are missing (\<open>None\<close>) in
  the rows of sums.
\<close>

record jour_table =
  jt_columns :: "string list"
  jt_rows :: "jour_row list"

text \<open>
  Statement by statement. \<^verbatim>\<open>reset_index\<close> raises when a column is already called
  \<open>Journalist\<close>; a column \<open>Publication Name\<close> of counts makes the merge rename both
  and \<^verbatim>\<open>astype(int)\<close> fail on the publication names; \<^verbatim>\<open>to_records\<close> fails on a
  column \<open>index\<close>. \<^verbatim>\<open>round\<close>, \<^verbatim>\<open>astype(int)\<close> and moving the column
  \<open>Publication Name\<close> change no value here; the numeric cells stay whole numbers
  throughout and are kept as integers. The second sum (line 206) runs over the frame that
  already holds the row \<open>GrandTotal\<close>.
\<close>

definition df1 :: "news_row list \<Rightarrow> news_row list" where
  "df1 df = explode_Journalist df"

definition jr_tab :: "news_row list \<Rightarrow> string ctab" where
  "jr_tab df = pd_crosstab Journalist Entity (df1 df)"

text \<open>Lines 192 to 196: the merge, the first row of every journalist, the row totals.\<close>

definition Journalist_Table :: "news_row list \<Rightarrow> (string \<times> string) ctab" where
  "Journalist_Table df =
     (let newdata = map (\<lambda>x. (Journalist x, Publication_Name x)) (df1 df);
          merged = pd_merge_inner (ct_rows (jr_tab df)) newdata;
          deduplicated = drop_duplicates (\<lambda>((j, p), cs). j) [] merged
      in assign_Total \<lparr>ct_columns = ct_columns (jr_tab df), ct_rows = deduplicated\<rparr>)"

text \<open>Lines 197 to 200: the descending sort, then the rows of Bureau News moved to the end.\<close>

definition bureau_news_last :: "(string \<times> string) ctab \<Rightarrow> ((string \<times> string) \<times> int list) list" where
  "bureau_news_last t =
     (let sorted_rows = sort_values_desc (ct_columns t) ''Total'' (ct_rows t);
          bn_row = filter (\<lambda>((j, p), cs). j = ''Bureau News'') sorted_rows;
          others = filter (\<lambda>((j, p), cs). j \<noteq> ''Bureau News'') sorted_rows
      in others @ bn_row)"

definition Jour_table :: "news_row list \<Rightarrow> error + jour_table" where
  "Jour_table df =
     (if ''Journalist'' \<in> set (ct_columns (jr_tab df))
      then Inl (ValueError ''cannot insert Journalist, already exists'')
      else if ''Publication Name'' \<in> set (ct_columns (jr_tab df))
      then Inl (ValueError ''astype(int) on Publication Name_y'')
      else
        (let cols = ct_columns (Journalist_Table df);
             concatenated = bureau_news_last (Journalist_Table df);
             data_rows =
               map (\<lambda>(i, ((j, p), cs)).
                      \<lparr>jr_index = Pos i, jr_Journalist = Some j,
                       jr_Publication_Name = Some p, jr_cells = cs\<rparr>)
                   (zip [0..<length concatenated] concatenated);
             with_grand =
               data_rows
               @ [\<lparr>jr_index = Lbl ''GrandTotal'', jr_Journalist = None, jr_Publication_Name = None,
                    jr_cells = column_sums (length cols) (map jr_cells data_rows)\<rparr>];
             with_total =
               with_grand
               @ [\<lparr>jr_index = Lbl ''Total'', jr_Journalist = None, jr_Publication_Name = None,
                    jr_cells = column_sums (length cols) (map jr_cells with_grand)\<rparr>]
         in if ''index'' \<in> set cols
            then Inl (ValueError ''field occurs more than once'')
            else Inr \<lparr>jt_columns = cols, jt_rows = with_total\<rparr>))"

subsection \<open>Journalists on the client only, on competitors only (lines 215 to 228)\<close>

text \<open>
  Lines 215 and 216, and again 223 and 224: the cross-tabulation of the table as it was
  read (\<open>df\<close>, not the exploded \<open>df1\<close>) with margins, as records. The second
  call computes the same frame \<open>crosstab1\<close>, so the column lists of lines 217 and 218
  are its column lists as well.
\<close>

definition crosstab :: "news_row list \<Rightarrow> error + rec_table" where
  "crosstab df =
     (case pd_crosstab_margins (=) ''Total'' Journalist Entity df of
        Inl e \<Rightarrow> Inl e
      | Inr t \<Rightarrow> to_records ''Journalist'' label_text t)"

definition startswith :: "string \<Rightarrow> string \<Rightarrow> bool" where
  "startswith s pre = prefix pre s"

definition client_cols :: "rec_table \<Rightarrow> string list" where
  "client_cols t = filter (\<lambda>col. startswith col ''Client-'') (names t)"

definition competitor_cols :: "rec_table \<Rightarrow> string list" where
  "competitor_cols t =
     filter (\<lambda>col. col \<notin> set [''Journalist'', ''Total''] \<and> \<not> startswith col ''Client-'') (names t)"

text \<open>
  A mask is a Python \<^verbatim>\<open>bool\<close> (when the list of columns is empty) or a boolean
  series with one entry per row. \<^verbatim>\<open>&\<close> of a bool and a series is a series;
  of two bools, a bool.
\<close>

datatype mask = Scalar bool | Series "bool list"

fun mask_and :: "mask \<Rightarrow> mask \<Rightarrow> mask" where
  "mask_and (Scalar a) (Scalar b) = Scalar (a \<and> b)"
| "mask_and (Scalar a) (Series bs) = Series (map (\<lambda>b. a \<and> b) bs)"
| "mask_and (Series as) (Scalar b) = Series (map (\<lambda>a. a \<and> b) as)"
| "mask_and (Series as) (Series bs) = Series (map (\<lambda>(a, b). a \<and> b) (zip as bs))"

text \<open>\<^verbatim>\<open>t[cols].sum(axis=1)\<close>: per row, the sum of the cells under the given labels.\<close>

definition row_sum :: "rec_table \<Rightarrow> string list \<Rightarrow> string \<times> int list \<Rightarrow> int" where
  "row_sum t cols r = sum_list (map (value_at (rt_columns t) (snd r)) cols)"

definition sum_axis1 :: "rec_table \<Rightarrow> string list \<Rightarrow> int list" where
  "sum_axis1 t cols = map (row_sum t cols) (rt_recs t)"

text \<open>
  \<^verbatim>\<open>t[mask]\<close>: with a series, the rows where it holds; with a bool, the lookup of a
  column labelled \<^verbatim>\<open>True\<close> or \<^verbatim>\<open>False\<close>, which no frame here has.
\<close>

definition getitem_mask :: "rec_table \<Rightarrow> mask \<Rightarrow> error + rec_table" where
  "getitem_mask t m =
     (case m of
        Scalar b \<Rightarrow> Inl (KeyError (if b then ''True'' else ''False''))
      | Series bs \<Rightarrow> Inr (t\<lparr>rt_recs := map snd (filter fst (zip bs (rt_recs t)))\<rparr>))"

definition sort_by_Total :: "rec_table \<Rightarrow> error + rec_table" where
  "sort_by_Total t =
     (if ''Total'' \<in> set (names t)
      then Inr (t\<lparr>rt_recs := sort_values_desc (rt_columns t) ''Total'' (rt_recs t)\<rparr>)
      else Inl (KeyError ''Total''))"

definition j_abt_client :: "news_row list \<Rightarrow> error + rec_table" where
  "j_abt_client df =
     (case crosstab df of
        Inl e \<Rightarrow> Inl e
      | Inr ct \<Rightarrow>
          (let mask_client_positive =
                 (if client_cols ct \<noteq> []
                  then Series (map (\<lambda>v. v \<noteq> 0) (sum_axis1 ct (client_cols ct)))
                  else Scalar False);
               mask_competitors_zero =
                 (if competitor_cols ct \<noteq> []
                  then Series (map (\<lambda>v. v = 0) (sum_axis1 ct (competitor_cols ct)))
                  else Scalar True)
           in case getitem_mask ct (mask_and mask_client_positive mask_competitors_zero) of
                Inl e \<Rightarrow> Inl e
              | Inr selected \<Rightarrow> sort_by_Total selected))"

definition j_abt_comp :: "news_row list \<Rightarrow> error + rec_table" where
  "j_abt_comp df =
     (case crosstab df of
        Inl e \<Rightarrow> Inl e
      | Inr crosstab1 \<Rightarrow>
          (let mask_client_zero =
                 (if client_cols crosstab1 \<noteq> []
                  then Series (map (\<lambda>v. v = 0) (sum_axis1 crosstab1 (client_cols crosstab1)))
                  else Scalar True);
               mask_competitor_positive =
                 (if competitor_cols crosstab1 \<noteq> []
                  then Series (map (\<lambda>v. v \<noteq> 0) (sum_axis1 crosstab1 (competitor_cols crosstab1)))
                  else Scalar False)
           in case getitem_mask crosstab1 (mask_and mask_client_zero mask_competitor_positive) of
                Inl e \<Rightarrow> Inl e
              | Inr selected \<Rightarrow> sort_by_Total selected))"

subsection \<open>The seven tables (lines 171 to 236)\<close>

record df_dict =
  dd_Entity_SOV :: sov_table
  dd_sov_dt :: "(nat \<times> nat) rowlabel ctab"
  dd_Publication :: rec_table
  dd_Jour_table :: jour_table
  dd_PType_Entity :: rec_table
  dd_j_abt_client :: rec_table
  dd_j_abt_comp :: rec_table

text \<open>The statements run in the order of the script; the first error ends the run.\<close>

definition report_tables :: "news_row list \<Rightarrow> error + df_dict" where
  "report_tables df =
     (case Entity_SOV df of Inl e \<Rightarrow> Inl e | Inr t1 \<Rightarrow>
      case sov_dt df of Inl e \<Rightarrow> Inl e | Inr t2 \<Rightarrow>
      case Publication df of Inl e \<Rightarrow> Inl e | Inr t3 \<Rightarrow>
      case Jour_table df of Inl e \<Rightarrow> Inl e | Inr t4 \<Rightarrow>
      case PType_Entity df of Inl e \<Rightarrow> Inl e | Inr t5 \<Rightarrow>
      case j_abt_client df of Inl e \<Rightarrow> Inl e | Inr t6 \<Rightarrow>
      case j_abt_comp df of Inl e \<Rightarrow> Inl e | Inr t7 \<Rightarrow>
      Inr \<lparr>dd_Entity_SOV = t1, dd_sov_dt = t2, dd_Publication = t3, dd_Jour_table = t4,
           dd_PType_Entity = t5, dd_j_abt_client = t6, dd_j_abt_comp = t7\<rparr>)"

section \<open>Report Pipeline: workbook assembly (lines 13 to 122)\<close>

subsection \<open>Frames, cells and the worksheet\<close>

text \<open>
  Of a frame the assembly reads the column labels (\<^verbatim>\<open>df.columns\<close>), the rows of
  values (\<^verbatim>\<open>df.values\<close>) and the number of rows (\<^verbatim>\<open>len(df)\<close>). The type of
  the values is left open.
\<close>

record 'v frame =
  df_columns :: "string list"
  df_values :: "'v list list"

text \<open>What \<^verbatim>\<open>cell.value\<close> is set to: a text (line, title, column label) or a value.\<close>

datatype 'v content = Str string | Val 'v

text \<open>\<^verbatim>\<open>Font(bold, color, name)\<close>; every border of the script is thin and black.\<close>

datatype font = Font bool "string option" string

record 'v xl_cell =
  cell_value :: "'v content option"
  cell_font :: "font option"
  cell_fill :: "string option"
  cell_alignment :: "string option"
  cell_border :: bool

definition blank :: "'v xl_cell" where
  "blank = \<lparr>cell_value = None, cell_font = None, cell_fill = None,
            cell_alignment = None, cell_border = False\<rparr>"

text \<open>
  The sheet: its title, its cells by (row, column), blank where nothing was written,
  and the merged ranges (first row, first column, last row, last column).
\<close>

record 'v worksheet =
  ws_title :: string
  ws_cells :: "nat \<times> nat \<Rightarrow> 'v xl_cell"
  ws_merged :: "(nat \<times> nat \<times> nat \<times> nat) list"

text \<open>\<^verbatim>\<open>ws.cell(row, column)\<close> followed by assignments to the cell's attributes.\<close>

definition put :: "nat \<times> nat \<Rightarrow> ('v xl_cell \<Rightarrow> 'v xl_cell) \<Rightarrow> 'v worksheet \<Rightarrow> 'v worksheet" where
  "put pos change ws = ws\<lparr>ws_cells := (ws_cells ws)(pos := change (ws_cells ws pos))\<rparr>"

subsection \<open>add_entity_info (lines 13 to 34)\<close>

definition info_cell :: "string \<Rightarrow> 'v xl_cell \<Rightarrow> 'v xl_cell" where
  "info_cell line cell =
     (let c1 = cell\<lparr>cell_value := Some (Str line), cell_border := True\<rparr>;
          c2 = (if startswith line ''Entity:''
                then c1\<lparr>cell_font := Some (Font True (Some ''000000'') ''Gill Sans''),
                        cell_fill := Some ''FFA500''\<rparr>
                else c1);
          c3 = (if startswith line ''Source:''
                then c2\<lparr>cell_font := Some (Font False (Some ''000000'') ''Gill Sans'')\<rparr>
                else c2)
      in if startswith line ''Time Period of analysis:''
         then c3\<lparr>cell_font := Some (Font False (Some ''000000'') ''Gill Sans'')\<rparr>
         else c3)"

definition add_entity_info :: "'v worksheet \<Rightarrow> string \<Rightarrow> nat \<Rightarrow> 'v worksheet" where
  "add_entity_info ws entity_info start_row =
     foldl (\<lambda>w (i, line). put (start_row + i - 1, 1) (info_cell line) w) ws
       (List.enumerate 1 (split_on (CHR 0x0A) entity_info))"

subsection \<open>add_styling_to_worksheet (lines 39 to 84)\<close>

definition title_cell :: "string \<Rightarrow> 'v xl_cell \<Rightarrow> 'v xl_cell" where
  "title_cell comment cell =
     cell\<lparr>cell_value := Some (Str comment),
          cell_fill := Some ''FFA500'',
          cell_font := Some (Font True (Some ''000000'') ''Gill Sans''),
          cell_alignment := Some ''center''\<rparr>"

definition hdr_cell :: "string \<Rightarrow> 'v xl_cell \<Rightarrow> 'v xl_cell" where
  "hdr_cell col_name cell =
     cell\<lparr>cell_value := Some (Str col_name),
          cell_font := Some (Font True None ''Gill Sans''),
          cell_alignment := Some ''center'',
          cell_border := True\<rparr>"

definition data_cell :: "'v \<Rightarrow> 'v xl_cell \<Rightarrow> 'v xl_cell" where
  "data_cell v cell =
     cell\<lparr>cell_value := Some (Val v),
          cell_font := Some (Font False None ''Gill Sans''),
          cell_alignment := Some ''center'',
          cell_border := True\<rparr>"

text \<open>
  \<^verbatim>\<open>ws.merge_cells(start_row, start_column, end_row, end_column)\<close>: openpyxl refuses
  a range whose last column is before its first, which is the range of a frame without
  columns.
\<close>

definition merge_cells :: "nat \<Rightarrow> nat \<Rightarrow> nat \<Rightarrow> nat \<Rightarrow> 'v worksheet \<Rightarrow> error + 'v worksheet" where
  "merge_cells start_row start_column end_row end_column ws =
     (if end_column < start_column \<or> end_row < start_row
      then Inl (ValueError ''not a valid cell range'')
      else Inr (ws\<lparr>ws_merged := ws_merged ws @ [(start_row, start_column, end_row, end_column)]\<rparr>))"

definition write_header :: "nat \<Rightarrow> string list \<Rightarrow> 'v worksheet \<Rightarrow> 'v worksheet" where
  "write_header header_row cols ws =
     foldl (\<lambda>w (col_idx, col_name). put (header_row, col_idx) (hdr_cell col_name) w) ws
       (List.enumerate 1 cols)"

definition write_row :: "nat \<Rightarrow> 'v list \<Rightarrow> 'v worksheet \<Rightarrow> 'v worksheet" where
  "write_row row_idx row_data ws =
     foldl (\<lambda>w (col_idx, v). put (row_idx, col_idx) (data_cell v) w) ws
       (List.enumerate 1 row_data)"

definition write_rows :: "nat \<Rightarrow> 'v list list \<Rightarrow> 'v worksheet \<Rightarrow> 'v worksheet" where
  "write_rows data_start_row vals ws =
     foldl (\<lambda>w (row_idx, row_data). write_row row_idx row_data w) ws
       (List.enumerate data_start_row vals)"

definition add_styling_to_worksheet ::
  "'v worksheet \<Rightarrow> 'v frame \<Rightarrow> nat \<Rightarrow> string \<Rightarrow> error + 'v worksheet" where
  "add_styling_to_worksheet ws df start_row comment =
     (case merge_cells start_row 1 start_row (length (df_columns df))
             (put (start_row, 1) (title_cell comment) ws) of
        Inl e \<Rightarrow> Inl e
      | Inr merged \<Rightarrow>
          (let header_row = start_row + 1;
               data_start_row = header_row + 1
           in Inr (write_rows data_start_row (df_values df)
                     (write_header header_row (df_columns df) merged))))"

subsection \<open>multiple_dfs (lines 89 to 122)\<close>

text \<open>
  The loop over \<^verbatim>\<open>zip(df_list, comments)\<close>, with the write cursor \<open>current_row\<close>.
\<close>

fun write_tables :: "('v frame \<times> string) list \<Rightarrow> nat \<Rightarrow> 'v worksheet \<Rightarrow> error + 'v worksheet" where
  "write_tables [] current_row ws = Inr ws"
| "write_tables ((each_df, comment) # rest) current_row ws =
     (case add_styling_to_worksheet ws each_df current_row comment of
        Inl e \<Rightarrow> Inl e
      | Inr ws' \<Rightarrow> write_tables rest (current_row + (length (df_values each_df) + 2) + 2) ws')"

text \<open>
  The result is the worksheet that \<^verbatim>\<open>wb.save\<close> serialises; the bytes belong to the
  spreadsheet codec.
\<close>

definition multiple_dfs ::
  "'v frame list \<Rightarrow> string \<Rightarrow> string list \<Rightarrow> string \<Rightarrow> error + 'v worksheet" where
  "multiple_dfs df_list sheet_name comments entity_info =
     (let ws = \<lparr>ws_title = sheet_name, ws_cells = (\<lambda>pos. blank), ws_merged = []\<rparr>;
          current_row = 1;
          ws = add_entity_info ws entity_info current_row;
          current_row = current_row + 6
      in write_tables (zip df_list comments) current_row ws)"

section \<open>Sample tables\<close>

text \<open>Small edited tables on which the properties below are evaluated.\<close>

definition sample_row :: "string \<Rightarrow> string \<Rightarrow> string \<Rightarrow> news_row" where
  "sample_row e j p =
     \<lparr>Entity = e, Date = (2024, 1, 5), Publication_Name = p,
      Publication_Type = ''Online'', Journalist = j\<rparr>"

definition bureau_df :: "news_row list" where
  "bureau_df =
     [sample_row ''Client-A'' ''Bureau News'' ''P1'',
      sample_row ''Client-A'' ''Bureau News'' ''P2'',
      sample_row ''Comp'' ''Bureau News'' ''P1'',
      sample_row ''Comp'' ''Zed,Amy'' ''P3'',
      sample_row ''Client-A'' ''Amy'' ''P4'']"



definition single_df :: "news_row list" where
  "single_df = [sample_row ''Client-A'' ''J1'' ''P1'']"

definition two_names_df :: "news_row list" where
  "two_names_df = [sample_row ''Client-A'' ''J1,J2'' ''P1'']"

definition competitors_df :: "news_row list" where
  "competitors_df = [sample_row ''Comp'' ''Zed'' ''P3'', sample_row ''Other'' ''Amy'' ''P4'']"

text \<open>Two frames, their titles and a header block of two lines.\<close>

definition sample_frames :: "int frame list" where
  "sample_frames =
     [\<lparr>df_columns = [''Entity'', ''News Count''], df_values = [[1, 2], [3, 4]]\<rparr>,
      \<lparr>df_columns = [''Total''], df_values = [[5]]\<rparr>]"

definition sample_comments :: "string list" where
  "sample_comments = [''SOV Table'', ''Month-on-Month Table'']"

definition sample_info :: string where
  "sample_info = ''Entity:'' @ [CHR 0x0A] @ ''Source: (Online)''"

section \<open>Properties of the Merge Pipeline\<close>

lemma foldl_snoc_map: "foldl (\<lambda>dfs f. dfs @ [g f]) acc fs = acc @ map g fs"
  by (induction fs arbitrary: acc) simp_all

lemma combined_df_rows:
  "sheet_rows (combined_df fs) = concat (map (\<lambda>f. sheet_rows (tag_file f)) fs)"
  by (simp add: combined_df_def pd_concat_def foldl_snoc_map Let_def comp_def)

lemma tag_file_rows:
  "sheet_rows (tag_file f) =
     map (\<lambda>r. r(''Entity'' \<mapsto> Text (entity_name (name f)))) (sheet_rows (content f))"
  by (simp add: tag_file_def set_column_def)

lemma length_concat_sum: "length (concat xss) = sum_list (map length xss)"
  by (induction xss) simp_all

lemma nth_concat_offset:
  "i < length xss \<Longrightarrow> j < length (xss ! i) \<Longrightarrow>
     concat xss ! (sum_list (map length (take i xss)) + j) = xss ! i ! j"
proof (induction xss arbitrary: i)
  case Nil
  then show ?case by simp
next
  case (Cons xs xss)
  show ?case
  proof (cases i)
    case 0
    with Cons.prems show ?thesis by (simp add: nth_append)
  next
    case (Suc k)
    with Cons.prems have "k < length xss" and "j < length (xss ! k)" by simp_all
    from Cons.IH [OF this] Suc show ?thesis
      by (simp add: nth_append add.assoc)
  qed
qed

lemma split_first_prefix: "prefix (split_first sep s) s"
  by (induction s) simp_all

lemma split_first_no_earlier:
  "k < length (split_first sep s) \<Longrightarrow> \<not> prefix sep (drop k s)"
proof (induction s arbitrary: k)
  case Nil
  then show ?case by simp
next
  case (Cons c cs)
  then show ?case by (cases k) (auto split: if_splits)
qed

lemma split_first_absent:
  "(\<forall>k<length s. \<not> prefix sep (drop k s)) \<Longrightarrow> split_first sep s = s"
proof (induction s)
  case Nil
  then show ?case by simp
next
  case (Cons c cs)
  from Cons.prems have here: "\<not> prefix sep (c # cs)" by (metis drop0 length_Cons zero_less_Suc)
  have "\<forall>k<length cs. \<not> prefix sep (drop k cs)"
  proof (intro allI impI)
    fix k assume "k < length cs"
    with Cons.prems have "\<not> prefix sep (drop (Suc k) (c # cs))"
      by (metis Suc_less_eq length_Cons)
    then show "\<not> prefix sep (drop k cs)" by simp
  qed
  from Cons.IH [OF this] here show ?case by simp
qed

lemma split_first_present:
  "k < length s \<Longrightarrow> prefix sep (drop k s) \<Longrightarrow> \<exists>rest. s = split_first sep s @ sep @ rest"
proof (induction s arbitrary: k)
  case Nil
  then show ?case by simp
next
  case (Cons c cs)
  show ?case
  proof (cases "prefix sep (c # cs)")
    case True
    then show ?thesis by (auto simp: prefix_def)
  next
    case False
    with Cons.prems obtain k' where k: "k = Suc k'" by (cases k) auto
    with Cons.prems have "k' < length cs" and "prefix sep (drop k' cs)" by simp_all
    from Cons.IH [OF this] False show ?thesis by auto
  qed
qed

lemma merge_pipeline_rows:
  "sheet_rows (combined_df fs) =
     concat (map (\<lambda>f. map (\<lambda>r. r(''Entity'' \<mapsto> Text (entity_name (name f))))
                          (sheet_rows (content f))) fs)"
  by (simp add: combined_df_rows tag_file_rows)

lemma combined_df_nth:
  assumes "i < length fs" and "j < length (sheet_rows (content (fs ! i)))"
  shows "sheet_rows (combined_df fs)
           ! (sum_list (map (\<lambda>f. length (sheet_rows (content f))) (take i fs)) + j)
         = (sheet_rows (content (fs ! i)) ! j)(''Entity'' \<mapsto> Text (entity_name (name (fs ! i))))"
proof -
  let ?g = "\<lambda>f. map (\<lambda>r. r(''Entity'' \<mapsto> Text (entity_name (name f)))) (sheet_rows (content f))"
  have len: "map length (take i (map ?g fs)) = map (\<lambda>f. length (sheet_rows (content f))) (take i fs)"
    by (simp add: take_map comp_def)
  have "concat (map ?g fs) ! (sum_list (map length (take i (map ?g fs))) + j) = map ?g fs ! i ! j"
    using assms by (intro nth_concat_offset) simp_all
  with assms show ?thesis
    by (simp add: merge_pipeline_rows len)
qed

text \<open>
  \<^verbatim>\<open>os.path.splitext\<close> cuts the name at its last dot: the stem and the extension
  joined are the name again; a name whose last component has a character other than a dot
  before its last dot loses that dot and what follows it; a name without a dot is its own
  stem.
\<close>

lemma rfind_absent: "c \<notin> set p \<Longrightarrow> rfind c p = - 1"
proof -
  assume "c \<notin> set p"
  then have "filter (\<lambda>i. p ! i = c) (rev [0..<length p]) = []"
    by (auto simp: filter_empty_conv)
  then show ?thesis by (simp add: rfind_def)
qed

lemma rfind_last:
  assumes "c \<notin> set ys"
  shows "rfind c (xs @ c # ys) = int (length xs)"
proof -
  let ?p = "xs @ c # ys"
  let ?B = "[Suc (length xs)..<length xs + Suc (length ys)]"
  have len: "length ?p = length xs + Suc (length ys)" by simp
  have "[0..<0 + length xs + Suc (length ys)]
      = [0..<0 + length xs] @ [0 + length xs..<0 + length xs + Suc (length ys)]"
    by (rule upt_add_eq_append) (rule le0)
  then have s1: "[0..<length xs + Suc (length ys)]
      = [0..<length xs] @ [length xs..<length xs + Suc (length ys)]"
    by (simp only: add_0)
  have s2: "[length xs..<length xs + Suc (length ys)] = length xs # ?B"
    by (rule upt_conv_Cons) simp
  have split: "[0..<length ?p] = [0..<length xs] @ length xs # ?B"
    unfolding len s1 s2 ..
  have "\<And>i. i \<in> set ?B \<Longrightarrow> ?p ! i \<noteq> c"
  proof -
    fix i assume i: "i \<in> set ?B"
    then have "?p ! i = ys ! (i - Suc (length xs))" by (auto simp: nth_append nth_Cons')
    moreover from i have "i - Suc (length xs) < length ys" by auto
    ultimately show "?p ! i \<noteq> c" using assms by (metis nth_mem)
  qed
  then have B: "filter (\<lambda>i. ?p ! i = c) (rev ?B) = []"
    by (auto simp: filter_empty_conv)
  have "filter (\<lambda>i. ?p ! i = c) (rev [0..<length ?p])
      = length xs # filter (\<lambda>i. ?p ! i = c) (rev [0..<length xs])"
    unfolding split rev_append rev.simps filter_append B by simp
  then show ?thesis by (simp add: rfind_def)
qed

lemma splitext_ext:
  assumes d: "d = [] \<or> last d = CHR ''/''"
      and f: "CHR ''/'' \<notin> set fname"
      and nd: "\<exists>c\<in>set fname. c \<noteq> CHR ''.''"
      and e1: "CHR ''.'' \<notin> set ext"
      and e2: "CHR ''/'' \<notin> set ext"
  shows "splitext (d @ fname @ CHR ''.'' # ext) = (d @ fname, CHR ''.'' # ext)"
proof -
  let ?p = "d @ fname @ CHR ''.'' # ext"
  have dot: "rfind CHR ''.'' ?p = int (length d + length fname)"
    using rfind_last [OF e1, of "d @ fname"] by simp
  have sep: "rfind CHR ''/'' ?p + 1 = int (length d)"
  proof (cases "d = []")
    case True
    with f e2 have "CHR ''/'' \<notin> set ?p" by simp
    from rfind_absent [OF this] True show ?thesis by simp
  next
    case False
    with d have "d = butlast d @ [CHR ''/'']" by (metis append_butlast_last_id)
    then have p: "?p = butlast d @ CHR ''/'' # (fname @ CHR ''.'' # ext)"
      by (metis append_Cons append_Nil append_assoc)
    have "CHR ''/'' \<notin> set (fname @ CHR ''.'' # ext)" using f e2 by simp
    from rfind_last [OF this, of "butlast d"]
    have r: "rfind CHR ''/'' ?p = int (length (butlast d))"
      unfolding p [symmetric] .
    from False have "length (butlast d) + 1 = length d" by simp
    then have "int (length (butlast d)) + 1 = int (length d)" by linarith
    with r show ?thesis by (simp only:)
  qed
  then have sep': "rfind CHR ''/'' ?p = int (length d) - 1" by simp
  from nd obtain k where k: "k < length fname" "fname ! k \<noteq> CHR ''.''"
    by (metis in_set_conv_nth)
  then have "?p ! (length d + k) \<noteq> CHR ''.''" by (simp add: nth_append)
  moreover from k have "length d + k \<in> set [length d..<length d + length fname]" by simp
  ultimately have ex: "list_ex (\<lambda>i. ?p ! i \<noteq> CHR ''.'') [length d..<length d + length fname]"
    unfolding list_ex_iff by blast
  have gt: "rfind CHR ''.'' ?p > rfind CHR ''/'' ?p" unfolding dot sep' by simp
  have n1: "nat (rfind CHR ''/'' ?p + 1) = length d" unfolding sep by simp
  have n2: "nat (rfind CHR ''.'' ?p) = length d + length fname" unfolding dot by simp
  show ?thesis
    unfolding splitext_def Let_def n1 n2 using gt ex by simp
qed

lemma splitext_no_dot:
  assumes "CHR ''.'' \<notin> set p"
  shows "splitext p = (p, [])"
proof -
  have "rfind CHR ''/'' p \<ge> - 1"
    by (simp add: rfind_def split: list.split)
  with rfind_absent [OF assms] show ?thesis
    by (simp add: splitext_def Let_def)
qed

lemma splitext_join: "fst (splitext p) @ snd (splitext p) = p"
  by (simp add: splitext_def Let_def)

text \<open>
  C8. For a non-empty list of uploaded files the Merge Pipeline returns the rows of the
  sheets, file after file in upload order and in each file's own order, every row with
  \<open>Entity\<close> set to its file's entity name; the row at position \<open>j\<close> of file \<open>i\<close>
  stands at the position given by the row counts of the files before it; the row count is
  the sum of the files' row counts; the index is reset to \<open>0, 1, ...\<close>; and the entity
  name is the part of the stem (the file name without its extension) before the first
  \<open>" - "\<close>: a prefix of the stem in which no occurrence starts, followed by the
  separator when the stem has one, and the whole stem otherwise. The stem is the file name
  with its extension stripped: stem and extension joined are the file name; when the name
  is a directory part, a last component with a character other than a dot, a dot and an
  extension without dot or slash, the stem is the name up to that last dot; and a name
  without a dot is its own stem.
\<close>

theorem merge_pipeline_concatenates:
  assumes "uploaded_files \<noteq> []"
  shows "\<exists>out. merge_pipeline uploaded_files = Some out
    \<and> sheet_rows out =
        concat (map (\<lambda>f. map (\<lambda>r. r(''Entity'' \<mapsto> Text (entity_name (name f))))
                             (sheet_rows (content f))) uploaded_files)
    \<and> (\<forall>i<length uploaded_files. \<forall>j<length (sheet_rows (content (uploaded_files ! i))).
          sheet_rows out
            ! (sum_list (map (\<lambda>f. length (sheet_rows (content f))) (take i uploaded_files)) + j)
          = (sheet_rows (content (uploaded_files ! i)) ! j)
              (''Entity'' \<mapsto> Text (entity_name (name (uploaded_files ! i)))))
    \<and> length (sheet_rows out) = sum_list (map (\<lambda>f. length (sheet_rows (content f))) uploaded_files)
    \<and> sheet_index out = [0..<length (sheet_rows out)]
    \<and> (\<forall>f\<in>set uploaded_files.
          let stem = fst (splitext (name f)); e = entity_name (name f)
          in prefix e stem
             \<and> (\<forall>k<length e. \<not> prefix '' - '' (drop k stem))
             \<and> ((\<exists>k<length stem. prefix '' - '' (drop k stem)) \<longrightarrow> prefix (e @ '' - '') stem)
             \<and> ((\<forall>k<length stem. \<not> prefix '' - '' (drop k stem)) \<longrightarrow> e = stem))
    \<and> (\<forall>f\<in>set uploaded_files. fst (splitext (name f)) @ snd (splitext (name f)) = name f)
    \<and> (\<forall>f\<in>set uploaded_files. \<forall>d fname ext.
          name f = d @ fname @ CHR ''.'' # ext
          \<and> (d = [] \<or> last d = CHR ''/'') \<and> CHR ''/'' \<notin> set fname
          \<and> (\<exists>c\<in>set fname. c \<noteq> CHR ''.'')
          \<and> CHR ''.'' \<notin> set ext \<and> CHR ''/'' \<notin> set ext
          \<longrightarrow> splitext (name f) = (d @ fname, CHR ''.'' # ext))
    \<and> (\<forall>f\<in>set uploaded_files.
          CHR ''.'' \<notin> set (name f) \<longrightarrow> splitext (name f) = (name f, []))"
proof -
  let ?out = "combined_df uploaded_files"
  have ret: "merge_pipeline uploaded_files = Some ?out"
    using assms by (simp add: merge_pipeline_def)
  have rows: "sheet_rows ?out =
        concat (map (\<lambda>f. map (\<lambda>r. r(''Entity'' \<mapsto> Text (entity_name (name f))))
                             (sheet_rows (content f))) uploaded_files)"
    by (rule merge_pipeline_rows)
  have pos: "\<forall>i<length uploaded_files. \<forall>j<length (sheet_rows (content (uploaded_files ! i))).
          sheet_rows ?out
            ! (sum_list (map (\<lambda>f. length (sheet_rows (content f))) (take i uploaded_files)) + j)
          = (sheet_rows (content (uploaded_files ! i)) ! j)
              (''Entity'' \<mapsto> Text (entity_name (name (uploaded_files ! i))))"
    using combined_df_nth by blast
  have len: "length (sheet_rows ?out)
      = sum_list (map (\<lambda>f. length (sheet_rows (content f))) uploaded_files)"
    by (simp add: rows length_concat_sum comp_def)
  have idx: "sheet_index ?out = [0..<length (sheet_rows ?out)]"
    by (simp add: combined_df_def pd_concat_def Let_def)
  have ent: "\<forall>f\<in>set uploaded_files.
          let stem = fst (splitext (name f)); e = entity_name (name f)
          in prefix e stem
             \<and> (\<forall>k<length e. \<not> prefix '' - '' (drop k stem))
             \<and> ((\<exists>k<length stem. prefix '' - '' (drop k stem)) \<longrightarrow> prefix (e @ '' - '') stem)
             \<and> ((\<forall>k<length stem. \<not> prefix '' - '' (drop k stem)) \<longrightarrow> e = stem)"
  proof
    fix f
    let ?stem = "fst (splitext (name f))"
    let ?e = "split_first '' - '' ?stem"
    have a: "prefix ?e ?stem" by (rule split_first_prefix)
    have b: "\<forall>k<length ?e. \<not> prefix '' - '' (drop k ?stem)"
      using split_first_no_earlier by blast
    have c: "(\<exists>k<length ?stem. prefix '' - '' (drop k ?stem)) \<longrightarrow> prefix (?e @ '' - '') ?stem"
    proof
      assume "\<exists>k<length ?stem. prefix '' - '' (drop k ?stem)"
      then obtain k where "k < length ?stem" and "prefix '' - '' (drop k ?stem)" by blast
      from split_first_present [OF this] obtain rest where "?stem = ?e @ '' - '' @ rest" ..
      then have "?stem = (?e @ '' - '') @ rest" by simp
      then show "prefix (?e @ '' - '') ?stem" by (rule prefixI)
    qed
    have d: "(\<forall>k<length ?stem. \<not> prefix '' - '' (drop k ?stem)) \<longrightarrow> ?e = ?stem"
      using split_first_absent by blast
    from a b c d
    show "let stem = fst (splitext (name f)); e = entity_name (name f)
          in prefix e stem
             \<and> (\<forall>k<length e. \<not> prefix '' - '' (drop k stem))
             \<and> ((\<exists>k<length stem. prefix '' - '' (drop k stem)) \<longrightarrow> prefix (e @ '' - '') stem)
             \<and> ((\<forall>k<length stem. \<not> prefix '' - '' (drop k stem)) \<longrightarrow> e = stem)"
      unfolding Let_def entity_name_def by blast
  qed
  have join: "\<forall>f\<in>set uploaded_files. fst (splitext (name f)) @ snd (splitext (name f)) = name f"
    by (simp add: splitext_join)
  have ext: "\<forall>f\<in>set uploaded_files. \<forall>d fname ext.
          name f = d @ fname @ CHR ''.'' # ext
          \<and> (d = [] \<or> last d = CHR ''/'') \<and> CHR ''/'' \<notin> set fname
          \<and> (\<exists>c\<in>set fname. c \<noteq> CHR ''.'')
          \<and> CHR ''.'' \<notin> set ext \<and> CHR ''/'' \<notin> set ext
          \<longrightarrow> splitext (name f) = (d @ fname, CHR ''.'' # ext)"
  proof (intro ballI allI impI)
    fix f d fname ext
    assume h: "name f = d @ fname @ CHR ''.'' # ext
          \<and> (d = [] \<or> last d = CHR ''/'') \<and> CHR ''/'' \<notin> set fname
          \<and> (\<exists>c\<in>set fname. c \<noteq> CHR ''.'')
          \<and> CHR ''.'' \<notin> set ext \<and> CHR ''/'' \<notin> set ext"
    then have n: "name f = d @ fname @ CHR ''.'' # ext" by (elim conjE)
    from h have "splitext (d @ fname @ CHR ''.'' # ext) = (d @ fname, CHR ''.'' # ext)"
      by (elim conjE) (rule splitext_ext)
    then show "splitext (name f) = (d @ fname, CHR ''.'' # ext)" by (simp only: n)
  qed
  have nodot: "\<forall>f\<in>set uploaded_files.
          CHR ''.'' \<notin> set (name f) \<longrightarrow> splitext (name f) = (name f, [])"
    by (simp add: splitext_no_dot)
  show ?thesis
    by (intro exI [of _ ?out] conjI) (rule ret rows pos len idx ent join ext nodot)+
qed

theorem merge_pipeline_concatenates_witness:
  "[\<lparr>name = ''A - x.xlsx'',
      content = \<lparr>sheet_columns = [''Headline''], sheet_index = [0],
                  sheet_rows = [[''Headline'' \<mapsto> Text ''h1'']]\<rparr>\<rparr>,
    \<lparr>name = ''B - y.xlsx'',
      content = \<lparr>sheet_columns = [''Headline''], sheet_index = [0],
                  sheet_rows = [[''Headline'' \<mapsto> Text ''h2'']]\<rparr>\<rparr>] \<noteq> []
   \<and> (\<exists>out. merge_pipeline
         [\<lparr>name = ''A - x.xlsx'',
            content = \<lparr>sheet_columns = [''Headline''], sheet_index = [0],
                        sheet_rows = [[''Headline'' \<mapsto> Text ''h1'']]\<rparr>\<rparr>,
          \<lparr>name = ''B - y.xlsx'',
            content = \<lparr>sheet_columns = [''Headline''], sheet_index = [0],
                        sheet_rows = [[''Headline'' \<mapsto> Text ''h2'']]\<rparr>\<rparr>] = Some out
      \<and> map (\<lambda>r. r ''Entity'') (sheet_rows out) = [Some (Text ''A''), Some (Text ''B'')]
      \<and> map (\<lambda>r. r ''Headline'') (sheet_rows out) = [Some (Text ''h1''), Some (Text ''h2'')]
      \<and> length (sheet_rows out) = 2
      \<and> sheet_index out = [0, 1])
   \<and> [\<lparr>name = ''Gamma.v2.xlsx'',
        content = \<lparr>sheet_columns = [''Headline''], sheet_index = [0],
                    sheet_rows = [[''Headline'' \<mapsto> Text ''h3'']]\<rparr>\<rparr>] \<noteq> []
   \<and> (\<exists>out. merge_pipeline
         [\<lparr>name = ''Gamma.v2.xlsx'',
            content = \<lparr>sheet_columns = [''Headline''], sheet_index = [0],
                        sheet_rows = [[''Headline'' \<mapsto> Text ''h3'']]\<rparr>\<rparr>] = Some out
      \<and> splitext ''Gamma.v2.xlsx'' = (''Gamma.v2'', ''.xlsx'')
      \<and> map (\<lambda>r. r ''Entity'') (sheet_rows out) = [Some (Text ''Gamma.v2'')])"
proof -
  let ?fs = "[\<lparr>name = ''A - x.xlsx'',
      content = \<lparr>sheet_columns = [''Headline''], sheet_index = [0],
                  sheet_rows = [[''Headline'' \<mapsto> Text ''h1'']]\<rparr>\<rparr>,
    \<lparr>name = ''B - y.xlsx'',
      content = \<lparr>sheet_columns = [''Headline''], sheet_index = [0],
                  sheet_rows = [[''Headline'' \<mapsto> Text ''h2'']]\<rparr>\<rparr>]"
  have ne: "?fs \<noteq> []" by simp
  have a: "entity_name ''A - x.xlsx'' = ''A''" by code_simp
  have b: "entity_name ''B - y.xlsx'' = ''B''" by code_simp
  from merge_pipeline_concatenates [OF ne] obtain out where
    ret: "merge_pipeline ?fs = Some out" and
    rows: "sheet_rows out =
        concat (map (\<lambda>f. map (\<lambda>r. r(''Entity'' \<mapsto> Text (entity_name (name f))))
                             (sheet_rows (content f))) ?fs)" and
    idx: "sheet_index out = [0..<length (sheet_rows out)]"
    by (elim exE conjE) (rule that)
  from rows have r: "sheet_rows out =
      [[''Headline'' \<mapsto> Text ''h1'', ''Entity'' \<mapsto> Text ''A''],
       [''Headline'' \<mapsto> Text ''h2'', ''Entity'' \<mapsto> Text ''B'']]"
    by (simp add: a b)
  have vals: "map (\<lambda>r. r ''Entity'') (sheet_rows out) = [Some (Text ''A''), Some (Text ''B'')]"
    "map (\<lambda>r. r ''Headline'') (sheet_rows out) = [Some (Text ''h1''), Some (Text ''h2'')]"
    "length (sheet_rows out) = 2"
    "sheet_index out = [0, 1]"
    using idx by (simp_all add: r upt_rec)
  have first: "\<exists>out. merge_pipeline ?fs = Some out
      \<and> map (\<lambda>r. r ''Entity'') (sheet_rows out) = [Some (Text ''A''), Some (Text ''B'')]
      \<and> map (\<lambda>r. r ''Headline'') (sheet_rows out) = [Some (Text ''h1''), Some (Text ''h2'')]
      \<and> length (sheet_rows out) = 2
      \<and> sheet_index out = [0, 1]"
    by (intro conjI exI [of _ out]) (rule ret vals)+
  let ?g = "\<lparr>name = ''Gamma.v2.xlsx'',
        content = \<lparr>sheet_columns = [''Headline''], sheet_index = [0],
                    sheet_rows = [[''Headline'' \<mapsto> Text ''h3'']]\<rparr>\<rparr>"
  have ne2: "[?g] \<noteq> []" by simp
  from merge_pipeline_concatenates [OF ne2] obtain out2 where
    ret2: "merge_pipeline [?g] = Some out2" and
    rows2: "sheet_rows out2 =
        concat (map (\<lambda>f. map (\<lambda>r. r(''Entity'' \<mapsto> Text (entity_name (name f))))
                             (sheet_rows (content f))) [?g])" and
    ext2: "\<forall>f\<in>set [?g]. \<forall>d fname ext.
          name f = d @ fname @ CHR ''.'' # ext
          \<and> (d = [] \<or> last d = CHR ''/'') \<and> CHR ''/'' \<notin> set fname
          \<and> (\<exists>c\<in>set fname. c \<noteq> CHR ''.'')
          \<and> CHR ''.'' \<notin> set ext \<and> CHR ''/'' \<notin> set ext
          \<longrightarrow> splitext (name f) = (d @ fname, CHR ''.'' # ext)"
    by (elim exE conjE) (rule that)
  have mem: "?g \<in> set [?g]" by simp
  have parts: "name ?g = [] @ ''Gamma.v2'' @ CHR ''.'' # ''xlsx''
          \<and> ([] = [] \<or> last [] = CHR ''/'') \<and> CHR ''/'' \<notin> set ''Gamma.v2''
          \<and> (\<exists>c\<in>set ''Gamma.v2''. c \<noteq> CHR ''.'')
          \<and> CHR ''.'' \<notin> set ''xlsx'' \<and> CHR ''/'' \<notin> set ''xlsx''"
    by simp
  from ext2 [THEN bspec, OF mem, THEN spec, THEN spec, THEN spec, THEN mp, OF parts]
  have sp: "splitext ''Gamma.v2.xlsx'' = (''Gamma.v2'', ''.xlsx'')" by simp
  then have en: "entity_name ''Gamma.v2.xlsx'' = ''Gamma.v2''"
    by (simp add: entity_name_def)
  from rows2 have ents2: "map (\<lambda>r. r ''Entity'') (sheet_rows out2) = [Some (Text ''Gamma.v2'')]"
    by (simp add: en)
  have second: "\<exists>out. merge_pipeline [?g] = Some out
      \<and> splitext ''Gamma.v2.xlsx'' = (''Gamma.v2'', ''.xlsx'')
      \<and> map (\<lambda>r. r ''Entity'') (sheet_rows out) = [Some (Text ''Gamma.v2'')]"
    by (intro conjI exI [of _ out2]) (rule ret2 sp ents2)+
  from ne first ne2 second show ?thesis by (intro conjI)
qed

section \<open>Properties of the Journalist Table\<close>

lemma drop_duplicates_keys:
  "set (map key (drop_duplicates key seen xs)) = set (map key xs) - set seen"
  by (induction xs arbitrary: seen) auto

lemma drop_duplicates_distinct:
  "distinct (map key (drop_duplicates key seen xs))"
proof (induction xs arbitrary: seen)
  case Nil
  then show ?case by simp
next
  case (Cons x xs)
  have "key x \<notin> set (map key (drop_duplicates key (key x # seen) xs))"
    unfolding drop_duplicates_keys by simp
  with Cons show ?case by simp
qed

lemma pd_crosstab_labels:
  "map fst (ct_rows (pd_crosstab rk ck df)) = sort (remdups (map rk df))"
  by (simp add: pd_crosstab_def Let_def comp_def)

lemma pd_merge_inner_keys:
  "set (map (\<lambda>r. fst (fst r)) (pd_merge_inner left newdata))
     = set (map fst left) \<inter> set (map fst newdata)"
  by (auto simp: pd_merge_inner_def image_iff split: prod.splits) force+

lemma assign_Total_labels: "map fst (ct_rows (assign_Total t)) = map fst (ct_rows t)"
  by (simp add: assign_Total_def comp_def case_prod_beta)

lemma Journalist_Table_labels:
  "map (\<lambda>r. fst (fst r)) (ct_rows (Journalist_Table df))
     = map (\<lambda>r. fst (fst r))
         (drop_duplicates (\<lambda>r. fst (fst r)) []
           (pd_merge_inner (ct_rows (jr_tab df))
              (map (\<lambda>x. (Journalist x, Publication_Name x)) (df1 df))))"
proof -
  have "map (\<lambda>r. fst (fst r)) (ct_rows (Journalist_Table df))
      = map fst (map fst (ct_rows (Journalist_Table df)))" by (simp add: comp_def)
  also have "\<dots> = map fst (map fst
         (drop_duplicates (\<lambda>((j, p), cs). j) []
           (pd_merge_inner (ct_rows (jr_tab df))
              (map (\<lambda>x. (Journalist x, Publication_Name x)) (df1 df)))))"
    unfolding Journalist_Table_def Let_def assign_Total_labels by simp
  finally show ?thesis by (simp add: comp_def split_def)
qed

lemma Journalist_Table_distinct:
  "distinct (map (\<lambda>r. fst (fst r)) (ct_rows (Journalist_Table df)))"
  unfolding Journalist_Table_labels by (rule drop_duplicates_distinct)

lemma Journalist_Table_keys:
  "set (map (\<lambda>r. fst (fst r)) (ct_rows (Journalist_Table df))) = set (map Journalist (df1 df))"
proof -
  have "set (map fst (ct_rows (jr_tab df))) = set (map Journalist (df1 df))"
    by (simp add: jr_tab_def pd_crosstab_labels)
  moreover have "set (map fst (map (\<lambda>x. (Journalist x, Publication_Name x)) (df1 df)))
      = set (map Journalist (df1 df))" by (simp add: comp_def)
  ultimately show ?thesis
    unfolding Journalist_Table_labels drop_duplicates_keys pd_merge_inner_keys by simp
qed

lemma filter_key_singleton:
  "distinct (map f xs) \<Longrightarrow> k \<in> set (map f xs) \<Longrightarrow> \<exists>y. filter (\<lambda>x. f x = k) xs = [y] \<and> f y = k"
proof (induction xs)
  case Nil
  then show ?case by simp
next
  case (Cons x xs)
  show ?case
  proof (cases "f x = k")
    case True
    with Cons.prems have "k \<notin> f ` set xs" by auto
    then have "filter (\<lambda>x. f x = k) xs = []" by (auto simp: filter_empty_conv)
    with True show ?thesis by simp
  next
    case False
    with Cons show ?thesis by auto
  qed
qed

lemma bureau_news_last_shape:
  assumes d: "distinct (map (\<lambda>r. fst (fst r)) (ct_rows t))"
      and m: "''Bureau News'' \<in> set (map (\<lambda>r. fst (fst r)) (ct_rows t))"
  shows "\<exists>others b. bureau_news_last t = others @ [b]
            \<and> fst (fst b) = ''Bureau News''
            \<and> list_all (\<lambda>r. fst (fst r) \<noteq> ''Bureau News'') others
            \<and> mset (others @ [b]) = mset (ct_rows t)"
proof -
  let ?s = "sort_values_desc (ct_columns t) ''Total'' (ct_rows t)"
  have ms: "mset ?s = mset (ct_rows t)" by (simp add: sort_values_desc_def)
  then have "mset (map (\<lambda>r. fst (fst r)) ?s) = mset (map (\<lambda>r. fst (fst r)) (ct_rows t))"
    by simp
  then have d': "distinct (map (\<lambda>r. fst (fst r)) ?s)"
    and m': "''Bureau News'' \<in> set (map (\<lambda>r. fst (fst r)) ?s)"
    using d m by (metis mset_eq_imp_distinct_iff, metis mset_eq_setD)
  from filter_key_singleton [OF d' m'] obtain b where
    b: "filter (\<lambda>r. fst (fst r) = ''Bureau News'') ?s = [b]" "fst (fst b) = ''Bureau News''"
    by blast
  let ?o = "filter (\<lambda>r. fst (fst r) \<noteq> ''Bureau News'') ?s"
  have shape: "bureau_news_last t = ?o @ [b]"
    using b(1) by (simp add: bureau_news_last_def Let_def split_def)
  have others: "list_all (\<lambda>r. fst (fst r) \<noteq> ''Bureau News'') ?o"
    by (simp add: list_all_iff)
  have "mset (?o @ [b]) = mset (filter (\<lambda>r. fst (fst r) \<noteq> ''Bureau News'') ?s)
      + mset (filter (\<lambda>r. fst (fst r) = ''Bureau News'') ?s)"
    using b(1) by simp
  also have "\<dots> = mset ?s"
    by (simp add: union_commute)
  finally have "mset (?o @ [b]) = mset (ct_rows t)" using ms by simp
  with shape b(2) others show ?thesis by blast
qed


lemma zip_upt_snoc:
  "zip [0..<length (xs @ [y])] (xs @ [y]) = zip [0..<length xs] xs @ [(length xs, y)]"
  by simp

lemma Jour_table_rows:
  assumes "Jour_table df = Inr t"
  shows "\<exists>grand total.
           jt_rows t =
             map (\<lambda>(i, ((j, p), cs)).
                    \<lparr>jr_index = Pos i, jr_Journalist = Some j,
                     jr_Publication_Name = Some p, jr_cells = cs\<rparr>)
                 (zip [0..<length (bureau_news_last (Journalist_Table df))]
                      (bureau_news_last (Journalist_Table df)))
             @ [grand, total]
         \<and> jr_index grand = Lbl ''GrandTotal'' \<and> jr_Journalist grand = None
         \<and> jr_Publication_Name grand = None
         \<and> jr_index total = Lbl ''Total'' \<and> jr_Journalist total = None
         \<and> jr_Publication_Name total = None"
  using assms by (auto simp: Jour_table_def Let_def split: if_splits)

text \<open>
  C5. Whenever the Journalist Table is produced and some journalist of the exploded table
  is named exactly \<open>Bureau News\<close>, its rows are the rows of the other journalists (each
  of them, none of them Bureau News), then the row of Bureau News, then the row
  \<open>GrandTotal\<close>, then the row \<open>Total\<close>. The statement holds for every table, so for
  every value of the totals and every outcome of the descending sort.
\<close>

theorem Bureau_News_last_data_row:
  assumes run: "Jour_table df = Inr t"
      and bn: "''Bureau News'' \<in> set (map Journalist (df1 df))"
  shows "\<exists>others bn_row grand total.
           jt_rows t = others @ [bn_row, grand, total]
         \<and> jr_Journalist bn_row = Some ''Bureau News''
         \<and> jr_index bn_row = Pos (length others)
         \<and> list_all (\<lambda>r. jr_Journalist r \<noteq> None \<and> jr_Journalist r \<noteq> Some ''Bureau News'') others
         \<and> set (map jr_Journalist others)
             = Some ` (set (map Journalist (df1 df)) - {''Bureau News''})
         \<and> jr_index grand = Lbl ''GrandTotal'' \<and> jr_Journalist grand = None
         \<and> jr_index total = Lbl ''Total'' \<and> jr_Journalist total = None"
proof -
  let ?T = "Journalist_Table df"
  let ?mk = "\<lambda>(i, ((j, p), cs)).
                    \<lparr>jr_index = Pos i, jr_Journalist = Some j,
                     jr_Publication_Name = Some p, jr_cells = cs\<rparr>"
  have d: "distinct (map (\<lambda>r. fst (fst r)) (ct_rows ?T))" by (rule Journalist_Table_distinct)
  have m: "''Bureau News'' \<in> set (map (\<lambda>r. fst (fst r)) (ct_rows ?T))"
    using bn unfolding Journalist_Table_keys .
  from bureau_news_last_shape [OF d m] obtain os b where
    shape: "bureau_news_last ?T = os @ [b]" and
    b: "fst (fst b) = ''Bureau News''" and
    os: "list_all (\<lambda>r. fst (fst r) \<noteq> ''Bureau News'') os" and
    ms: "mset (os @ [b]) = mset (ct_rows ?T)"
    by blast
  from Jour_table_rows [OF run] obtain grand total where
    rows: "jt_rows t = map ?mk (zip [0..<length (bureau_news_last ?T)] (bureau_news_last ?T))
             @ [grand, total]" and
    g: "jr_index grand = Lbl ''GrandTotal''" "jr_Journalist grand = None" and
    tt: "jr_index total = Lbl ''Total''" "jr_Journalist total = None"
    by blast
  let ?others = "map ?mk (zip [0..<length os] os)"
  let ?bn = "?mk (length os, b)"
  have r1: "jt_rows t = ?others @ [?bn, grand, total]"
    unfolding rows shape zip_upt_snoc by simp
  have r2: "jr_Journalist ?bn = Some ''Bureau News''"
    using b by (simp add: split_def)
  have len: "length ?others = length os" by simp
  have r3: "jr_index ?bn = Pos (length ?others)"
    unfolding len by (simp add: split_def)
  have js: "map jr_Journalist ?others = map (\<lambda>r. Some (fst (fst r))) os"
    by (rule nth_equalityI) (simp_all add: split_def)
  have r4: "list_all (\<lambda>r. jr_Journalist r \<noteq> None \<and> jr_Journalist r \<noteq> Some ''Bureau News'') ?others"
  proof -
    have "list_all (\<lambda>x. x \<noteq> None \<and> x \<noteq> Some ''Bureau News'') (map jr_Journalist ?others)"
      unfolding js using os by (simp add: list_all_iff)
    then show ?thesis by (simp add: list_all_iff)
  qed
  have "set (map (\<lambda>r. fst (fst r)) (os @ [b])) = set (map Journalist (df1 df))"
    using ms Journalist_Table_keys [of df] by (metis mset_eq_setD mset_map)
  moreover have "distinct (map (\<lambda>r. fst (fst r)) (os @ [b]))"
    using ms d by (metis mset_eq_imp_distinct_iff mset_map)
  ultimately have "set (map (\<lambda>r. fst (fst r)) os) = set (map Journalist (df1 df)) - {''Bureau News''}"
    using b by (auto simp: image_iff)
  then have "Some ` set (map (\<lambda>r. fst (fst r)) os)
             = Some ` (set (map Journalist (df1 df)) - {''Bureau News''})"
    by (rule arg_cong)
  then have r5: "set (map jr_Journalist ?others)
             = Some ` (set (map Journalist (df1 df)) - {''Bureau News''})"
    unfolding js by (simp add: image_image)
  from r1 r2 r3 r4 r5 g tt show ?thesis by blast
qed

theorem Bureau_News_last_data_row_witness:
  "Jour_table bureau_df =
     Inr \<lparr>jt_columns = [''Client-A'', ''Comp'', ''Total''],
          jt_rows =
            [\<lparr>jr_index = Pos 0, jr_Journalist = Some ''Amy'',
               jr_Publication_Name = Some ''P3'', jr_cells = [1, 1, 2]\<rparr>,
             \<lparr>jr_index = Pos 1, jr_Journalist = Some ''Zed'',
               jr_Publication_Name = Some ''P3'', jr_cells = [0, 1, 1]\<rparr>,
             \<lparr>jr_index = Pos 2, jr_Journalist = Some ''Bureau News'',
               jr_Publication_Name = Some ''P1'', jr_cells = [2, 1, 3]\<rparr>,
             \<lparr>jr_index = Lbl ''GrandTotal'', jr_Journalist = None,
               jr_Publication_Name = None, jr_cells = [3, 3, 6]\<rparr>,
             \<lparr>jr_index = Lbl ''Total'', jr_Journalist = None,
               jr_Publication_Name = None, jr_cells = [6, 6, 12]\<rparr>]\<rparr>
   \<and> ''Bureau News'' \<in> set (map Journalist (df1 bureau_df))
   \<and> (\<exists>t others bn_row grand total.
         Jour_table bureau_df = Inr t
       \<and> jt_rows t = others @ [bn_row, grand, total]
       \<and> jr_Journalist bn_row = Some ''Bureau News''
       \<and> jr_index bn_row = Pos (length others)
       \<and> set (map jr_Journalist others) = {Some ''Amy'', Some ''Zed''}
       \<and> jr_index grand = Lbl ''GrandTotal''
       \<and> jr_index total = Lbl ''Total'')"
proof -
  let ?t = "\<lparr>jt_columns = [''Client-A'', ''Comp'', ''Total''],
          jt_rows =
            [\<lparr>jr_index = Pos 0, jr_Journalist = Some ''Amy'',
               jr_Publication_Name = Some ''P3'', jr_cells = [1, 1, 2]\<rparr>,
             \<lparr>jr_index = Pos 1, jr_Journalist = Some ''Zed'',
               jr_Publication_Name = Some ''P3'', jr_cells = [0, 1, 1]\<rparr>,
             \<lparr>jr_index = Pos 2, jr_Journalist = Some ''Bureau News'',
               jr_Publication_Name = Some ''P1'', jr_cells = [2, 1, 3]\<rparr>,
             \<lparr>jr_index = Lbl ''GrandTotal'', jr_Journalist = None,
               jr_Publication_Name = None, jr_cells = [3, 3, 6]\<rparr>,
             \<lparr>jr_index = Lbl ''Total'', jr_Journalist = None,
               jr_Publication_Name = None, jr_cells = [6, 6, 12]\<rparr>]\<rparr>"
  have run: "Jour_table bureau_df = Inr ?t" by code_simp
  have bn: "''Bureau News'' \<in> set (map Journalist (df1 bureau_df))" by code_simp
  have names: "set (map Journalist (df1 bureau_df)) = {''Bureau News'', ''Zed'', ''Amy''}"
    by code_simp
  from Bureau_News_last_data_row [OF run bn] obtain others bn_row grand total where
    h: "jt_rows ?t = others @ [bn_row, grand, total]"
       "jr_Journalist bn_row = Some ''Bureau News''"
       "jr_index bn_row = Pos (length others)"
       "set (map jr_Journalist others)
          = Some ` (set (map Journalist (df1 bureau_df)) - {''Bureau News''})"
       "jr_index grand = Lbl ''GrandTotal''"
       "jr_index total = Lbl ''Total''"
    by blast
  have "Some ` (set (map Journalist (df1 bureau_df)) - {''Bureau News''})
      = {Some ''Amy'', Some ''Zed''}"
    unfolding names by auto
  with h(4) have h4: "set (map jr_Journalist others) = {Some ''Amy'', Some ''Zed''}" by simp
  have ex: "\<exists>t others bn_row grand total.
         Jour_table bureau_df = Inr t
       \<and> jt_rows t = others @ [bn_row, grand, total]
       \<and> jr_Journalist bn_row = Some ''Bureau News''
       \<and> jr_index bn_row = Pos (length others)
       \<and> set (map jr_Journalist others) = {Some ''Amy'', Some ''Zed''}
       \<and> jr_index grand = Lbl ''GrandTotal''
       \<and> jr_index total = Lbl ''Total''"
    using run h(1,2,3,5,6) h4 by blast
  from run bn ex show ?thesis by (intro conjI)
qed

lemma split_on_not_Nil: "split_on c s \<noteq> []"
  by (induction s) (simp_all add: Let_def)

lemma explode_one_entities:
  "ps \<noteq> [] \<Longrightarrow> set (map Entity (map (\<lambda>j. x\<lparr>Journalist := j\<rparr>) ps)) = {Entity x}"
  by (cases ps) auto

lemma explode_Journalist_entities:
  "set (map Entity (explode_Journalist df)) = set (map Entity df)"
proof (induction df)
  case Nil
  then show ?case by (simp add: explode_Journalist_def)
next
  case (Cons x df)
  have "set (map Entity (explode_Journalist (x # df)))
      = set (map Entity (map (\<lambda>j. x\<lparr>Journalist := j\<rparr>) (split_on CHR '','' (Journalist x))))
        \<union> set (map Entity (explode_Journalist df))"
    by (simp add: explode_Journalist_def)
  also have "\<dots> = {Entity x} \<union> set (map Entity df)"
    unfolding Cons.IH explode_one_entities [OF split_on_not_Nil] ..
  finally show ?case by simp
qed

lemma jr_tab_columns: "set (ct_columns (jr_tab df)) = set (map Entity df)"
  by (simp add: jr_tab_def df1_def pd_crosstab_def Let_def explode_Journalist_entities flip: set_map)

lemma Journalist_Table_columns:
  "set (ct_columns (Journalist_Table df)) = insert ''Total'' (set (map Entity df))"
  using jr_tab_columns [of df]
  by (auto simp: Journalist_Table_def Let_def assign_Total_def)

text \<open>The Journalist Table is produced unless an entity carries the label of one of its text columns.\<close>

lemma Jour_table_produced:
  assumes "''Journalist'' \<notin> set (map Entity df)"
      and "''Publication Name'' \<notin> set (map Entity df)"
      and "''index'' \<notin> set (map Entity df)"
  shows "\<exists>t. Jour_table df = Inr t"
proof -
  from assms(1,2) have "''Journalist'' \<notin> set (ct_columns (jr_tab df))"
    "''Publication Name'' \<notin> set (ct_columns (jr_tab df))"
    unfolding jr_tab_columns by simp_all
  moreover from assms(3) have "''index'' \<notin> set (ct_columns (Journalist_Table df))"
    unfolding Journalist_Table_columns by simp
  ultimately show ?thesis by (simp add: Jour_table_def Let_def)
qed

lemma column_sums_snoc:
  "column_sums n (css @ [column_sums n css]) = map (\<lambda>v. 2 * v) (column_sums n css)"
  by (simp add: column_sums_def)

text \<open>
  Line 206 sums the frame that line 202 has extended: in every Journalist Table the row
  \<open>GrandTotal\<close> holds the column sums of the data rows and the row \<open>Total\<close> holds
  twice the row \<open>GrandTotal\<close>.
\<close>

lemma Jour_table_Total_row_doubles:
  assumes "Jour_table df = Inr t"
  shows "\<exists>data_rows grand total.
           jt_rows t = data_rows @ [grand, total]
         \<and> jr_index grand = Lbl ''GrandTotal''
         \<and> jr_index total = Lbl ''Total''
         \<and> jr_cells grand = column_sums (length (jt_columns t)) (map jr_cells data_rows)
         \<and> jr_cells total = map (\<lambda>v. 2 * v) (jr_cells grand)"
  using assms
  by (auto simp: Jour_table_def Let_def column_sums_snoc split: if_splits)

text \<open>
  C1. The claim is that the rows \<open>GrandTotal\<close> and \<open>Total\<close> of the Journalist Table
  are equal, both the column sums of the data rows. On the table of one article, by J1 on
  Client-A, the row \<open>GrandTotal\<close> is the column sums, 1 and 1, and the row \<open>Total\<close>
  is 2 and 2: the second sum counts the row \<open>GrandTotal\<close> as a data row. The whole
  report runs on this table and holds this Journalist Table.
\<close>

theorem Total_row_sums_GrandTotal_row_too:
  "Jour_table single_df =
     Inr \<lparr>jt_columns = [''Client-A'', ''Total''],
          jt_rows =
            [\<lparr>jr_index = Pos 0, jr_Journalist = Some ''J1'',
               jr_Publication_Name = Some ''P1'', jr_cells = [1, 1]\<rparr>,
             \<lparr>jr_index = Lbl ''GrandTotal'', jr_Journalist = None,
               jr_Publication_Name = None, jr_cells = [1, 1]\<rparr>,
             \<lparr>jr_index = Lbl ''Total'', jr_Journalist = None,
               jr_Publication_Name = None, jr_cells = [2, 2]\<rparr>]\<rparr>
   \<and> \<not> isl (report_tables single_df)
   \<and> map jr_cells (jt_rows (dd_Jour_table (projr (report_tables single_df))))
       = [[1, 1], [1, 1], [2, 2]]"
  by code_simp

text \<open>
  C4. The claim is that every journalist-keyed pivot is computed from the exploded rows.
  On the table of one article by \<open>J1,J2\<close> on Client-A, the exploded table \<open>df1\<close> has
  one row for J1 and one for J2, and the pivot of the Journalist Table counts 1 for each;
  the cross-tabulation of lines 215 and 223, from which the client-only and the
  competitor-only tables are selected, is computed from \<open>df\<close> and has the single
  journalist \<open>J1,J2\<close>. The whole report runs on this table; its Journalist Table
  lists J1 and J2, its client-only table lists \<open>J1,J2\<close>.
\<close>

theorem crosstab_of_lines_215_and_223_not_exploded:
  "df1 two_names_df = [sample_row ''Client-A'' ''J1'' ''P1'', sample_row ''Client-A'' ''J2'' ''P1'']
   \<and> jr_tab two_names_df = \<lparr>ct_columns = [''Client-A''], ct_rows = [(''J1'', [1]), (''J2'', [1])]\<rparr>
   \<and> crosstab two_names_df =
       Inr \<lparr>rt_index_name = ''Journalist'', rt_columns = [''Client-A'', ''Total''],
            rt_recs = [(''J1,J2'', [1, 1]), (''Total'', [1, 1])]\<rparr>
   \<and> \<not> isl (report_tables two_names_df)
   \<and> map jr_Journalist (jt_rows (dd_Jour_table (projr (report_tables two_names_df))))
       = [Some ''J1'', Some ''J2'', None, None]
   \<and> rt_recs (dd_j_abt_client (projr (report_tables two_names_df)))
       = [(''J1,J2'', [1, 1]), (''Total'', [1, 1])]"
  by code_simp

section \<open>Properties of the client-only and competitor-only tables\<close>

lemma select_mask: "map snd (filter fst (zip (map f xs) xs)) = filter f xs"
  by (induction xs) simp_all

lemma zip_and:
  "map (\<lambda>(a, b). a \<and> b) (zip (map p xs) (map q xs)) = map (\<lambda>x. p x \<and> q x) xs"
  by (induction xs) simp_all

lemma j_abt_client_rows:
  assumes ct: "crosstab df = Inr ct"
      and some: "client_cols ct \<noteq> [] \<or> competitor_cols ct \<noteq> []"
      and tot: "''Total'' \<in> set (names ct)"
  shows "j_abt_client df =
           Inr (ct\<lparr>rt_recs := sort_values_desc (rt_columns ct) ''Total''
                  (filter (\<lambda>r. (client_cols ct \<noteq> [] \<and> row_sum ct (client_cols ct) r \<noteq> 0)
                              \<and> (competitor_cols ct = [] \<or> row_sum ct (competitor_cols ct) r = 0))
                     (rt_recs ct))\<rparr>)"
  using some tot
  by (cases "client_cols ct = []"; cases "competitor_cols ct = []")
     (simp_all add: j_abt_client_def ct Let_def getitem_mask_def sort_by_Total_def names_def
        sum_axis1_def zip_and select_mask comp_def)

lemma j_abt_comp_rows:
  assumes ct: "crosstab df = Inr ct"
      and some: "client_cols ct \<noteq> [] \<or> competitor_cols ct \<noteq> []"
      and tot: "''Total'' \<in> set (names ct)"
  shows "j_abt_comp df =
           Inr (ct\<lparr>rt_recs := sort_values_desc (rt_columns ct) ''Total''
                  (filter (\<lambda>r. (client_cols ct = [] \<or> row_sum ct (client_cols ct) r = 0)
                              \<and> (competitor_cols ct \<noteq> [] \<and> row_sum ct (competitor_cols ct) r \<noteq> 0))
                     (rt_recs ct))\<rparr>)"
  using some tot
  by (cases "client_cols ct = []"; cases "competitor_cols ct = []")
     (simp_all add: j_abt_comp_def ct Let_def getitem_mask_def sort_by_Total_def names_def
        sum_axis1_def zip_and select_mask comp_def)

lemma j_abt_client_no_columns:
  assumes "crosstab df = Inr ct" and "client_cols ct = []" and "competitor_cols ct = []"
  shows "j_abt_client df = Inl (KeyError ''False'')"
  using assms by (simp add: j_abt_client_def Let_def getitem_mask_def)

lemma pd_crosstab_no_rows: "ct_rows (pd_crosstab rk ck df) = [] \<longleftrightarrow> df = []"
proof -
  have "sort (remdups (map rk df)) = [] \<longleftrightarrow> df = []"
    by (metis length_0_conv length_sort map_is_Nil_conv remdups_eq_nil_iff)
  then show ?thesis by (simp add: pd_crosstab_def Let_def)
qed

lemma crosstab_empty:
  "crosstab [] = Inr \<lparr>rt_index_name = ''Journalist'', rt_columns = [], rt_recs = []\<rparr>"
  by (simp add: crosstab_def pd_crosstab_margins_def pd_crosstab_def to_records_def)

lemma crosstab_nonempty:
  assumes ct: "crosstab df = Inr ct" and ne: "df \<noteq> []"
  shows "rt_index_name ct = ''Journalist''"
    and "rt_columns ct = sort (remdups (map Entity df)) @ [''Total'']"
    and "rt_recs ct =
           map (\<lambda>j. (j, map (\<lambda>c. group_size (\<lambda>x. Journalist x = j \<and> Entity x = c) df)
                            (sort (remdups (map Entity df)))
                        @ [group_size (\<lambda>x. Journalist x = j) df]))
               (sort (remdups (map Journalist df)))
           @ [(''Total'', map (\<lambda>c. group_size (\<lambda>x. Entity x = c) df) (sort (remdups (map Entity df)))
                          @ [int (length df)])]"
    and "''Total'' \<notin> set (map Journalist df)"
    and "''Total'' \<notin> set (map Entity df)"
    and "''Journalist'' \<notin> set (map Entity df)"
proof -
  have rows: "ct_rows (pd_crosstab Journalist Entity df) \<noteq> []"
    using ne by (simp add: pd_crosstab_no_rows)
  from ct have noconf: "\<not> (list_ex (\<lambda>(r, cs). r = ''Total'') (ct_rows (pd_crosstab Journalist Entity df))
        \<or> ''Total'' \<in> set (ct_columns (pd_crosstab Journalist Entity df)))"
    by (auto simp: crosstab_def pd_crosstab_margins_def Let_def split: if_splits)
  from noconf show "''Total'' \<notin> set (map Journalist df)"
    by (auto simp: pd_crosstab_def Let_def list_ex_iff)
  from noconf show "''Total'' \<notin> set (map Entity df)"
    by (auto simp: pd_crosstab_def Let_def)
  from ct noconf rows have m: "to_records ''Journalist'' label_text
      \<lparr>ct_columns = ct_columns (pd_crosstab Journalist Entity df) @ [''Total''],
       ct_rows = map (\<lambda>(r, cs). (Group r, cs @ [group_size (\<lambda>x. Journalist x = r) df]))
                  (ct_rows (pd_crosstab Journalist Entity df))
                @ [(Margin ''Total'',
                    map (\<lambda>c. group_size (\<lambda>x. Entity x = c) df) (ct_columns (pd_crosstab Journalist Entity df))
                    @ [int (length df)])]\<rparr> = Inr ct"
    by (simp add: crosstab_def pd_crosstab_margins_def Let_def)
  then show "''Journalist'' \<notin> set (map Entity df)"
    by (auto simp: to_records_def pd_crosstab_def Let_def split: if_splits)
  from m show "rt_index_name ct = ''Journalist''"
    by (auto simp: to_records_def split: if_splits)
  from m show "rt_columns ct = sort (remdups (map Entity df)) @ [''Total'']"
    by (auto simp: to_records_def pd_crosstab_def Let_def split: if_splits)
  from m show "rt_recs ct =
           map (\<lambda>j. (j, map (\<lambda>c. group_size (\<lambda>x. Journalist x = j \<and> Entity x = c) df)
                            (sort (remdups (map Entity df)))
                        @ [group_size (\<lambda>x. Journalist x = j) df]))
               (sort (remdups (map Journalist df)))
           @ [(''Total'', map (\<lambda>c. group_size (\<lambda>x. Entity x = c) df) (sort (remdups (map Entity df)))
                          @ [int (length df)])]"
    by (auto simp: to_records_def pd_crosstab_def Let_def label_text_def comp_def split: if_splits)
qed

lemma crosstab_columns_nonempty:
  assumes ct: "crosstab df = Inr ct" and cols: "rt_columns ct \<noteq> []"
  shows "df \<noteq> []"
proof
  assume "df = []"
  with ct have "ct = \<lparr>rt_index_name = ''Journalist'', rt_columns = [], rt_recs = []\<rparr>"
    by (simp add: crosstab_empty)
  with cols show False by simp
qed

lemma client_cols_columns: "client_cols ct \<noteq> [] \<Longrightarrow> rt_index_name ct = ''Journalist'' \<Longrightarrow> rt_columns ct \<noteq> []"
  by (auto simp: client_cols_def names_def startswith_def)

lemma competitor_cols_columns: "competitor_cols ct \<noteq> [] \<Longrightarrow> rt_index_name ct = ''Journalist'' \<Longrightarrow> rt_columns ct \<noteq> []"
  by (auto simp: competitor_cols_def names_def)

lemma crosstab_index_name: "crosstab df = Inr ct \<Longrightarrow> rt_index_name ct = ''Journalist''"
  by (auto simp: crosstab_def to_records_def split: sum.splits if_splits)

lemma crosstab_some_column:
  assumes ct: "crosstab df = Inr ct"
      and some: "client_cols ct \<noteq> [] \<or> competitor_cols ct \<noteq> []"
  shows "df \<noteq> []" and "''Total'' \<in> set (names ct)"
proof -
  from some crosstab_index_name [OF ct] have "rt_columns ct \<noteq> []"
    using client_cols_columns competitor_cols_columns by blast
  with ct show ne: "df \<noteq> []" by (rule crosstab_columns_nonempty)
  from crosstab_nonempty(2) [OF ct ne] show "''Total'' \<in> set (names ct)"
    by (simp add: names_def)
qed

lemma crosstab_labels_distinct:
  assumes ct: "crosstab df = Inr ct"
  shows "distinct (map fst (rt_recs ct))"
proof (cases "df = []")
  case True
  with ct show ?thesis by (auto simp: crosstab_empty)
next
  case False
  from crosstab_nonempty(3,4) [OF ct False] show ?thesis
    by (simp add: comp_def)
qed

lemma same_label_same_row:
  "distinct (map fst rs) \<Longrightarrow> r \<in> set rs \<Longrightarrow> r' \<in> set rs \<Longrightarrow> fst r = fst r' \<Longrightarrow> r = r'"
  by (metis distinct_map inj_on_def)

text \<open>
  C6. Whenever the Journalist by Entity cross-tabulation has at least one column whose
  name starts with \<open>Client-\<close> and at least one other entity column, both tables are
  produced and no journalist label occurs in both.
\<close>

theorem client_only_and_competitor_only_disjoint:
  assumes ct: "crosstab df = Inr ct"
      and client: "client_cols ct \<noteq> []"
      and comp: "competitor_cols ct \<noteq> []"
  shows "\<exists>t6 t7. j_abt_client df = Inr t6 \<and> j_abt_comp df = Inr t7
            \<and> set (map fst (rt_recs t6)) \<inter> set (map fst (rt_recs t7)) = {}"
proof -
  let ?P6 = "\<lambda>r. (client_cols ct \<noteq> [] \<and> row_sum ct (client_cols ct) r \<noteq> 0)
                  \<and> (competitor_cols ct = [] \<or> row_sum ct (competitor_cols ct) r = 0)"
  let ?P7 = "\<lambda>r. (client_cols ct = [] \<or> row_sum ct (client_cols ct) r = 0)
                  \<and> (competitor_cols ct \<noteq> [] \<and> row_sum ct (competitor_cols ct) r \<noteq> 0)"
  let ?t6 = "ct\<lparr>rt_recs := sort_values_desc (rt_columns ct) ''Total'' (filter ?P6 (rt_recs ct))\<rparr>"
  let ?t7 = "ct\<lparr>rt_recs := sort_values_desc (rt_columns ct) ''Total'' (filter ?P7 (rt_recs ct))\<rparr>"
  from client have some: "client_cols ct \<noteq> [] \<or> competitor_cols ct \<noteq> []" by simp
  note tot = crosstab_some_column(2) [OF ct some]
  have r6: "j_abt_client df = Inr ?t6" by (rule j_abt_client_rows [OF ct some tot])
  have r7: "j_abt_comp df = Inr ?t7" by (rule j_abt_comp_rows [OF ct some tot])
  have s6: "set (rt_recs ?t6) = {r \<in> set (rt_recs ct). ?P6 r}"
    by (simp add: sort_values_desc_def)
  have s7: "set (rt_recs ?t7) = {r \<in> set (rt_recs ct). ?P7 r}"
    by (simp add: sort_values_desc_def)
  have "set (map fst (rt_recs ?t6)) \<inter> set (map fst (rt_recs ?t7)) = {}"
  proof (rule ccontr)
    assume "set (map fst (rt_recs ?t6)) \<inter> set (map fst (rt_recs ?t7)) \<noteq> {}"
    then obtain r r' where r: "r \<in> set (rt_recs ?t6)" and r': "r' \<in> set (rt_recs ?t7)"
      and eq: "fst r = fst r'"
      by (auto simp: image_iff)
    from r s6 have a: "r \<in> set (rt_recs ct)" "?P6 r" by auto
    from r' s7 have b: "r' \<in> set (rt_recs ct)" "?P7 r'" by auto
    from same_label_same_row [OF crosstab_labels_distinct [OF ct] a(1) b(1) eq] have "r = r'" .
    with a(2) b(2) client show False by simp
  qed
  with r6 r7 show ?thesis by blast
qed

theorem client_only_and_competitor_only_disjoint_witness:
  "crosstab bureau_df =
     Inr \<lparr>rt_index_name = ''Journalist'', rt_columns = [''Client-A'', ''Comp'', ''Total''],
          rt_recs = [(''Amy'', [1, 0, 1]), (''Bureau News'', [2, 1, 3]),
                     (''Zed,Amy'', [0, 1, 1]), (''Total'', [3, 2, 5])]\<rparr>
   \<and> client_cols \<lparr>rt_index_name = ''Journalist'', rt_columns = [''Client-A'', ''Comp'', ''Total''],
          rt_recs = [(''Amy'', [1, 0, 1]), (''Bureau News'', [2, 1, 3]),
                     (''Zed,Amy'', [0, 1, 1]), (''Total'', [3, 2, 5])]\<rparr> \<noteq> []
   \<and> competitor_cols \<lparr>rt_index_name = ''Journalist'', rt_columns = [''Client-A'', ''Comp'', ''Total''],
          rt_recs = [(''Amy'', [1, 0, 1]), (''Bureau News'', [2, 1, 3]),
                     (''Zed,Amy'', [0, 1, 1]), (''Total'', [3, 2, 5])]\<rparr> \<noteq> []
   \<and> (\<exists>t6 t7. j_abt_client bureau_df = Inr t6 \<and> j_abt_comp bureau_df = Inr t7
         \<and> map fst (rt_recs t6) = [''Amy''] \<and> map fst (rt_recs t7) = [''Zed,Amy'']
         \<and> set (map fst (rt_recs t6)) \<inter> set (map fst (rt_recs t7)) = {})"
proof -
  let ?ct = "\<lparr>rt_index_name = ''Journalist'', rt_columns = [''Client-A'', ''Comp'', ''Total''],
          rt_recs = [(''Amy'', [1, 0, 1]), (''Bureau News'', [2, 1, 3]),
                     (''Zed,Amy'', [0, 1, 1]), (''Total'', [3, 2, 5])]\<rparr>"
  have ct: "crosstab bureau_df = Inr ?ct" by code_simp
  have client: "client_cols ?ct \<noteq> []" by code_simp
  have comp: "competitor_cols ?ct \<noteq> []" by code_simp
  have e6: "j_abt_client bureau_df = Inr (?ct\<lparr>rt_recs := [(''Amy'', [1, 0, 1])]\<rparr>)" by code_simp
  have e7: "j_abt_comp bureau_df = Inr (?ct\<lparr>rt_recs := [(''Zed,Amy'', [0, 1, 1])]\<rparr>)" by code_simp
  from client_only_and_competitor_only_disjoint [OF ct client comp] obtain t6 t7 where
    h: "j_abt_client bureau_df = Inr t6" "j_abt_comp bureau_df = Inr t7"
       "set (map fst (rt_recs t6)) \<inter> set (map fst (rt_recs t7)) = {}"
    by blast
  from h(1) e6 have l6: "map fst (rt_recs t6) = [''Amy'']" by auto
  from h(2) e7 have l7: "map fst (rt_recs t7) = [''Zed,Amy'']" by auto
  have "\<exists>t6 t7. j_abt_client bureau_df = Inr t6 \<and> j_abt_comp bureau_df = Inr t7
         \<and> map fst (rt_recs t6) = [''Amy''] \<and> map fst (rt_recs t7) = [''Zed,Amy'']
         \<and> set (map fst (rt_recs t6)) \<inter> set (map fst (rt_recs t7)) = {}"
    by (intro exI [of _ t6] exI [of _ t7] conjI) (rule h l6 l7)+
  with ct client comp show ?thesis by (intro conjI)
qed


lemma crosstab_produced:
  assumes "''Total'' \<notin> set (map Journalist df)"
      and "''Total'' \<notin> set (map Entity df)"
      and "''Journalist'' \<notin> set (map Entity df)"
  shows "\<exists>ct. crosstab df = Inr ct"
  using assms
  by (auto simp: crosstab_def pd_crosstab_margins_def pd_crosstab_def to_records_def Let_def
      list_ex_iff)

lemma entity_column_classified:
  assumes ct: "crosstab df = Inr ct" and ne: "df \<noteq> []"
  shows "client_cols ct \<noteq> [] \<or> competitor_cols ct \<noteq> []"
proof -
  note shape = crosstab_nonempty [OF ct ne]
  from ne obtain x where x: "x \<in> set df" by (cases df) auto
  let ?e = "Entity x"
  have nm: "names ct = ''Journalist'' # sort (remdups (map Entity df)) @ [''Total'']"
    by (simp add: names_def shape(1,2))
  from x have mem: "?e \<in> set (names ct)" unfolding nm by simp
  from x have "?e \<in> set (map Entity df)" by simp
  with shape(5,6) have other: "?e \<notin> set [''Journalist'', ''Total'']" by auto
  show ?thesis
  proof (cases "startswith ?e ''Client-''")
    case True
    with mem have "?e \<in> set (client_cols ct)" by (simp add: client_cols_def)
    then show ?thesis by auto
  next
    case False
    with mem other have "?e \<in> set (competitor_cols ct)" by (simp add: competitor_cols_def)
    then show ?thesis by auto
  qed
qed

text \<open>
  C7. For every table with at least one row whose cross-tabulation has no column starting
  with \<open>Client-\<close>, the client-only table is produced and has no row, while the
  competitor-only table is produced and holds exactly the rows of the cross-tabulation
  whose competitor columns do not sum to 0, sorted by \<open>Total\<close>, largest first.
\<close>

theorem no_Client_column_asymmetry:
  assumes ct: "crosstab df = Inr ct"
      and none: "client_cols ct = []"
      and ne: "df \<noteq> []"
  shows "\<exists>t6 t7. j_abt_client df = Inr t6 \<and> rt_recs t6 = []
            \<and> j_abt_comp df = Inr t7
            \<and> mset (rt_recs t7)
                = mset (filter (\<lambda>r. row_sum ct (competitor_cols ct) r \<noteq> 0) (rt_recs ct))
            \<and> sorted (map (\<lambda>(l, cs). - value_at (rt_columns ct) cs ''Total'') (rt_recs t7))"
proof -
  note some = entity_column_classified [OF ct ne]
  with none have comp: "competitor_cols ct \<noteq> []" by simp
  note tot = crosstab_some_column(2) [OF ct some]
  let ?t6 = "ct\<lparr>rt_recs := []\<rparr>"
  let ?t7 = "ct\<lparr>rt_recs := sort_values_desc (rt_columns ct) ''Total''
                  (filter (\<lambda>r. row_sum ct (competitor_cols ct) r \<noteq> 0) (rt_recs ct))\<rparr>"
  from j_abt_client_rows [OF ct some tot] none have a: "j_abt_client df = Inr ?t6"
    by (simp add: sort_values_desc_def)
  from j_abt_comp_rows [OF ct some tot] none comp have b: "j_abt_comp df = Inr ?t7" by simp
  have c: "mset (rt_recs ?t7)
      = mset (filter (\<lambda>r. row_sum ct (competitor_cols ct) r \<noteq> 0) (rt_recs ct))"
    by (simp add: sort_values_desc_def)
  have d: "sorted (map (\<lambda>(l, cs). - value_at (rt_columns ct) cs ''Total'') (rt_recs ?t7))"
    by (simp add: sort_values_desc_def)
  have e: "rt_recs ?t6 = []" by simp
  show ?thesis
    by (intro exI [of _ ?t6] exI [of _ ?t7] conjI) (rule a b c d e)+
qed

theorem no_Client_column_asymmetry_witness:
  "crosstab competitors_df =
     Inr \<lparr>rt_index_name = ''Journalist'', rt_columns = [''Comp'', ''Other'', ''Total''],
          rt_recs = [(''Amy'', [0, 1, 1]), (''Zed'', [1, 0, 1]), (''Total'', [1, 1, 2])]\<rparr>
   \<and> client_cols \<lparr>rt_index_name = ''Journalist'', rt_columns = [''Comp'', ''Other'', ''Total''],
          rt_recs = [(''Amy'', [0, 1, 1]), (''Zed'', [1, 0, 1]), (''Total'', [1, 1, 2])]\<rparr> = []
   \<and> competitors_df \<noteq> []
   \<and> (\<exists>t6 t7. j_abt_client competitors_df = Inr t6 \<and> rt_recs t6 = []
         \<and> j_abt_comp competitors_df = Inr t7
         \<and> mset (rt_recs t7)
             = {#(''Amy'', [0, 1, 1]), (''Zed'', [1, 0, 1]), (''Total'', [1, 1, 2])#})"
proof -
  let ?ct = "\<lparr>rt_index_name = ''Journalist'', rt_columns = [''Comp'', ''Other'', ''Total''],
          rt_recs = [(''Amy'', [0, 1, 1]), (''Zed'', [1, 0, 1]), (''Total'', [1, 1, 2])]\<rparr>"
  have ct: "crosstab competitors_df = Inr ?ct" by code_simp
  have none: "client_cols ?ct = []" by code_simp
  have ne: "competitors_df \<noteq> []" by (simp add: competitors_df_def)
  have rows: "filter (\<lambda>r. row_sum ?ct (competitor_cols ?ct) r \<noteq> 0) (rt_recs ?ct)
      = [(''Amy'', [0, 1, 1]), (''Zed'', [1, 0, 1]), (''Total'', [1, 1, 2])]"
    by code_simp
  from no_Client_column_asymmetry [OF ct none ne] obtain t6 t7 where
    h: "j_abt_client competitors_df = Inr t6" "rt_recs t6 = []"
       "j_abt_comp competitors_df = Inr t7"
       "mset (rt_recs t7)
          = mset (filter (\<lambda>r. row_sum ?ct (competitor_cols ?ct) r \<noteq> 0) (rt_recs ?ct))"
    by blast
  from h(4) have m: "mset (rt_recs t7)
      = {#(''Amy'', [0, 1, 1]), (''Zed'', [1, 0, 1]), (''Total'', [1, 1, 2])#}"
    unfolding rows by simp
  have "\<exists>t6 t7. j_abt_client competitors_df = Inr t6 \<and> rt_recs t6 = []
         \<and> j_abt_comp competitors_df = Inr t7
         \<and> mset (rt_recs t7)
             = {#(''Amy'', [0, 1, 1]), (''Zed'', [1, 0, 1]), (''Total'', [1, 1, 2])#}"
    by (intro exI [of _ t6] exI [of _ t7] conjI) (rule h(1,2,3) m)+
  with ct none ne show ?thesis by (intro conjI)
qed

lemma value_at_own:
  assumes "c \<in> set cols"
  shows "value_at (cols @ [t]) (map f cols @ [g]) c = f c"
proof -
  have "zip (cols @ [t]) (map f cols @ [g]) = zip cols (map f cols) @ [(t, g)]" by simp
  moreover have "map_of (zip cols (map f cols)) c = Some (f c)"
    using assms by (simp add: map_of_zip_map)
  ultimately show ?thesis by (simp add: value_at_def)
qed

lemma group_size_pos: "c \<in> set (map k df) \<Longrightarrow> 0 < group_size (\<lambda>x. k x = c) df"
  by (auto simp: group_size_def filter_empty_conv)

lemma sum_list_pos:
  fixes f :: "'a \<Rightarrow> int"
  shows "xs \<noteq> [] \<Longrightarrow> (\<And>x. x \<in> set xs \<Longrightarrow> 0 < f x) \<Longrightarrow> 0 < sum_list (map f xs)"
proof (induction xs)
  case Nil
  then show ?case by simp
next
  case (Cons x xs)
  have "0 \<le> sum_list (map f xs)"
    using Cons.prems(2) by (intro sum_list_nonneg) (auto simp: less_imp_le)
  moreover have "0 < f x" using Cons.prems(2) by simp
  ultimately show ?case by simp
qed

text \<open>
  C10. The two tables are selected from a cross-tabulation that still holds its margins
  row, labelled \<open>Total\<close>: for every table with at least one row, the margins row is a
  row of the cross-tabulation; the client-only table is produced and holds exactly the
  rows of the cross-tabulation that satisfy its mask, the margins row like any other, and
  when every entity of the table starts with \<open>Client-\<close> the margins row is one of the
  rows of the client-only table; the competitor-only table is produced and holds exactly
  the rows of the cross-tabulation that satisfy its mask, the margins row like any other,
  and when no entity of the table starts with \<open>Client-\<close> the margins row is one of the
  rows of the competitor-only table.
\<close>

theorem margins_row_selected:
  assumes ct: "crosstab df = Inr ct"
      and ne: "df \<noteq> []"
  shows "(''Total'', map (\<lambda>c. group_size (\<lambda>x. Entity x = c) df) (sort (remdups (map Entity df)))
                     @ [int (length df)]) \<in> set (rt_recs ct)
       \<and> (\<exists>t6. j_abt_client df = Inr t6
            \<and> set (rt_recs t6) =
                 {r \<in> set (rt_recs ct).
                    (client_cols ct \<noteq> [] \<and> row_sum ct (client_cols ct) r \<noteq> 0)
                    \<and> (competitor_cols ct = [] \<or> row_sum ct (competitor_cols ct) r = 0)}
            \<and> (list_all (\<lambda>x. startswith (Entity x) ''Client-'') df \<longrightarrow>
                 (''Total'', map (\<lambda>c. group_size (\<lambda>x. Entity x = c) df) (sort (remdups (map Entity df)))
                             @ [int (length df)]) \<in> set (rt_recs t6)))
       \<and> (\<exists>t7. j_abt_comp df = Inr t7
            \<and> set (rt_recs t7) =
                 {r \<in> set (rt_recs ct).
                    (client_cols ct = [] \<or> row_sum ct (client_cols ct) r = 0)
                    \<and> (competitor_cols ct \<noteq> [] \<and> row_sum ct (competitor_cols ct) r \<noteq> 0)}
            \<and> (list_all (\<lambda>x. \<not> startswith (Entity x) ''Client-'') df \<longrightarrow>
                 (''Total'', map (\<lambda>c. group_size (\<lambda>x. Entity x = c) df) (sort (remdups (map Entity df)))
                             @ [int (length df)]) \<in> set (rt_recs t7)))"
proof -
  let ?ents = "sort (remdups (map Entity df))"
  let ?f = "\<lambda>c. group_size (\<lambda>x. Entity x = c) df"
  let ?m = "(''Total'', map ?f ?ents @ [int (length df)])"
  let ?t6 = "ct\<lparr>rt_recs := sort_values_desc (rt_columns ct) ''Total''
                  (filter (\<lambda>r. (client_cols ct \<noteq> [] \<and> row_sum ct (client_cols ct) r \<noteq> 0)
                              \<and> (competitor_cols ct = [] \<or> row_sum ct (competitor_cols ct) r = 0))
                     (rt_recs ct))\<rparr>"
  note some = entity_column_classified [OF ct ne]
  note tot = crosstab_some_column(2) [OF ct some]
  note shape = crosstab_nonempty [OF ct ne]
  have t6: "j_abt_client df = Inr ?t6" by (rule j_abt_client_rows [OF ct some tot])
  have a: "?m \<in> set (rt_recs ct)" unfolding shape(3) by simp
  have b: "set (rt_recs ?t6) =
           {r \<in> set (rt_recs ct).
              (client_cols ct \<noteq> [] \<and> row_sum ct (client_cols ct) r \<noteq> 0)
              \<and> (competitor_cols ct = [] \<or> row_sum ct (competitor_cols ct) r = 0)}"
    by (auto simp: sort_values_desc_def)
  have c: "list_all (\<lambda>x. startswith (Entity x) ''Client-'') df \<longrightarrow> ?m \<in> set (rt_recs ?t6)"
  proof
    assume all: "list_all (\<lambda>x. startswith (Entity x) ''Client-'') df"
    then have pre: "\<And>c. c \<in> set ?ents \<Longrightarrow> startswith c ''Client-''"
      by (auto simp: list_all_iff)
    have nm: "names ct = ''Journalist'' # ?ents @ [''Total'']"
      by (simp add: names_def shape(1,2))
    have cl: "client_cols ct = ?ents"
      unfolding client_cols_def nm using pre by (simp add: startswith_def filter_id_conv)
    have co: "competitor_cols ct = []"
      unfolding competitor_cols_def nm using pre by (simp add: filter_empty_conv)
    have ents: "?ents \<noteq> []" using ne
      by (metis length_0_conv length_sort map_is_Nil_conv remdups_eq_nil_iff)
    have eq: "map (value_at (?ents @ [''Total'']) (map ?f ?ents @ [int (length df)])) ?ents
        = map ?f ?ents"
      by (rule map_cong [OF refl]) (rule value_at_own)
    have "row_sum ct ?ents ?m
        = sum_list (map (value_at (?ents @ [''Total'']) (map ?f ?ents @ [int (length df)])) ?ents)"
      unfolding row_sum_def shape(2) by simp
    also have "\<dots> = sum_list (map ?f ?ents)" by (simp only: eq)
    also have "\<dots> > 0"
      by (rule sum_list_pos [OF ents]) (simp add: group_size_pos)
    finally have "row_sum ct (client_cols ct) ?m \<noteq> 0" unfolding cl by simp
    with a cl co ents show "?m \<in> set (rt_recs ?t6)" unfolding b by simp
  qed
  from t6 b c have "\<exists>t6. j_abt_client df = Inr t6
            \<and> set (rt_recs t6) =
                 {r \<in> set (rt_recs ct).
                    (client_cols ct \<noteq> [] \<and> row_sum ct (client_cols ct) r \<noteq> 0)
                    \<and> (competitor_cols ct = [] \<or> row_sum ct (competitor_cols ct) r = 0)}
            \<and> (list_all (\<lambda>x. startswith (Entity x) ''Client-'') df \<longrightarrow>
                 ?m \<in> set (rt_recs t6))"
    by (intro exI [of _ ?t6] conjI)
  note client = this
  let ?t7 = "ct\<lparr>rt_recs := sort_values_desc (rt_columns ct) ''Total''
                  (filter (\<lambda>r. (client_cols ct = [] \<or> row_sum ct (client_cols ct) r = 0)
                              \<and> (competitor_cols ct \<noteq> [] \<and> row_sum ct (competitor_cols ct) r \<noteq> 0))
                     (rt_recs ct))\<rparr>"
  have t7: "j_abt_comp df = Inr ?t7" by (rule j_abt_comp_rows [OF ct some tot])
  have b': "set (rt_recs ?t7) =
           {r \<in> set (rt_recs ct).
              (client_cols ct = [] \<or> row_sum ct (client_cols ct) r = 0)
              \<and> (competitor_cols ct \<noteq> [] \<and> row_sum ct (competitor_cols ct) r \<noteq> 0)}"
    by (auto simp: sort_values_desc_def)
  have c': "list_all (\<lambda>x. \<not> startswith (Entity x) ''Client-'') df \<longrightarrow> ?m \<in> set (rt_recs ?t7)"
  proof
    assume all: "list_all (\<lambda>x. \<not> startswith (Entity x) ''Client-'') df"
    then have pre: "\<And>c. c \<in> set ?ents \<Longrightarrow> \<not> startswith c ''Client-''"
      by (auto simp: list_all_iff)
    have other: "\<And>c. c \<in> set ?ents \<Longrightarrow> c \<noteq> ''Journalist'' \<and> c \<noteq> ''Total''"
    proof -
      fix c assume "c \<in> set ?ents"
      then have "c \<in> set (map Entity df)" by (simp only: set_sort set_remdups)
      with shape(5,6) show "c \<noteq> ''Journalist'' \<and> c \<noteq> ''Total''" by metis
    qed
    have nm: "names ct = ''Journalist'' # ?ents @ [''Total'']"
      by (simp add: names_def shape(1,2))
    have cl: "client_cols ct = []"
      unfolding client_cols_def nm using pre by (simp add: startswith_def filter_empty_conv)
    have co: "competitor_cols ct = ?ents"
      unfolding competitor_cols_def nm using pre other by (simp add: filter_id_conv)
    have ents: "?ents \<noteq> []" using ne
      by (metis length_0_conv length_sort map_is_Nil_conv remdups_eq_nil_iff)
    have eq: "map (value_at (?ents @ [''Total'']) (map ?f ?ents @ [int (length df)])) ?ents
        = map ?f ?ents"
      by (rule map_cong [OF refl]) (rule value_at_own)
    have "row_sum ct ?ents ?m
        = sum_list (map (value_at (?ents @ [''Total'']) (map ?f ?ents @ [int (length df)])) ?ents)"
      unfolding row_sum_def shape(2) by simp
    also have "\<dots> = sum_list (map ?f ?ents)" by (simp only: eq)
    also have "\<dots> > 0"
      by (rule sum_list_pos [OF ents]) (simp add: group_size_pos)
    finally have "row_sum ct (competitor_cols ct) ?m \<noteq> 0" unfolding co by simp
    with a cl co ents show "?m \<in> set (rt_recs ?t7)" unfolding b' by simp
  qed
  from t7 b' c' have comp: "\<exists>t7. j_abt_comp df = Inr t7
            \<and> set (rt_recs t7) =
                 {r \<in> set (rt_recs ct).
                    (client_cols ct = [] \<or> row_sum ct (client_cols ct) r = 0)
                    \<and> (competitor_cols ct \<noteq> [] \<and> row_sum ct (competitor_cols ct) r \<noteq> 0)}
            \<and> (list_all (\<lambda>x. \<not> startswith (Entity x) ''Client-'') df \<longrightarrow>
                 ?m \<in> set (rt_recs t7))"
    by (intro exI [of _ ?t7] conjI)
  from a client comp show ?thesis by (intro conjI)
qed

theorem margins_row_selected_witness:
  "crosstab two_names_df =
     Inr \<lparr>rt_index_name = ''Journalist'', rt_columns = [''Client-A'', ''Total''],
          rt_recs = [(''J1,J2'', [1, 1]), (''Total'', [1, 1])]\<rparr>
   \<and> two_names_df \<noteq> []
   \<and> list_all (\<lambda>x. startswith (Entity x) ''Client-'') two_names_df
   \<and> (\<exists>t6. j_abt_client two_names_df = Inr t6
         \<and> (''Total'', [1, 1]) \<in> set (rt_recs t6)
         \<and> map fst (rt_recs t6) = [''J1,J2'', ''Total''])
   \<and> crosstab competitors_df =
     Inr \<lparr>rt_index_name = ''Journalist'', rt_columns = [''Comp'', ''Other'', ''Total''],
          rt_recs = [(''Amy'', [0, 1, 1]), (''Zed'', [1, 0, 1]), (''Total'', [1, 1, 2])]\<rparr>
   \<and> competitors_df \<noteq> []
   \<and> list_all (\<lambda>x. \<not> startswith (Entity x) ''Client-'') competitors_df
   \<and> (\<exists>t7. j_abt_comp competitors_df = Inr t7
         \<and> (''Total'', [1, 1, 2]) \<in> set (rt_recs t7)
         \<and> map fst (rt_recs t7) = [''Total'', ''Amy'', ''Zed''])"
proof -
  let ?ct = "\<lparr>rt_index_name = ''Journalist'', rt_columns = [''Client-A'', ''Total''],
          rt_recs = [(''J1,J2'', [1, 1]), (''Total'', [1, 1])]\<rparr>"
  have ct: "crosstab two_names_df = Inr ?ct" by code_simp
  have ne: "two_names_df \<noteq> []" by (simp add: two_names_df_def)
  have e6: "j_abt_client two_names_df = Inr ?ct" by code_simp
  have all: "list_all (\<lambda>x. startswith (Entity x) ''Client-'') two_names_df" by code_simp
  have m: "(''Total'', map (\<lambda>c. group_size (\<lambda>x. Entity x = c) two_names_df)
                          (sort (remdups (map Entity two_names_df)))
                     @ [int (length two_names_df)]) = (''Total'', [1, 1])"
    by code_simp
  let ?ct6 = "\<lparr>rt_index_name = ''Journalist'', rt_columns = [''Client-A'', ''Total''],
          rt_recs = [(''J1,J2'', [1, 1]), (''Total'', [1, 1])]\<rparr>"
  from margins_row_selected [OF ct ne] have "\<exists>t6. j_abt_client two_names_df = Inr t6
      \<and> set (rt_recs t6) =
           {r \<in> set (rt_recs ?ct6).
              (client_cols ?ct6 \<noteq> [] \<and> row_sum ?ct6 (client_cols ?ct6) r \<noteq> 0)
              \<and> (competitor_cols ?ct6 = [] \<or> row_sum ?ct6 (competitor_cols ?ct6) r = 0)}
      \<and> (list_all (\<lambda>x. startswith (Entity x) ''Client-'') two_names_df \<longrightarrow>
           (''Total'', map (\<lambda>c. group_size (\<lambda>x. Entity x = c) two_names_df)
                          (sort (remdups (map Entity two_names_df)))
                     @ [int (length two_names_df)]) \<in> set (rt_recs t6))"
    by (elim conjE)
  then obtain t6 where
    h1: "j_abt_client two_names_df = Inr t6" and
    h2: "list_all (\<lambda>x. startswith (Entity x) ''Client-'') two_names_df \<longrightarrow>
           (''Total'', map (\<lambda>c. group_size (\<lambda>x. Entity x = c) two_names_df)
                          (sort (remdups (map Entity two_names_df)))
                     @ [int (length two_names_df)]) \<in> set (rt_recs t6)"
    by (elim exE conjE) (rule that)
  from h2 all have h1':
       "(''Total'', map (\<lambda>c. group_size (\<lambda>x. Entity x = c) two_names_df)
                          (sort (remdups (map Entity two_names_df)))
                     @ [int (length two_names_df)]) \<in> set (rt_recs t6)"
    by (rule mp)
  note h = h1 h1'
  from h(2) have sel: "(''Total'', [1, 1]) \<in> set (rt_recs t6)" unfolding m .
  from h(1) e6 have lbl: "map fst (rt_recs t6) = [''J1,J2'', ''Total'']" by auto
  have "\<exists>t6. j_abt_client two_names_df = Inr t6
         \<and> (''Total'', [1, 1]) \<in> set (rt_recs t6)
         \<and> map fst (rt_recs t6) = [''J1,J2'', ''Total'']"
    by (intro exI [of _ t6] conjI) (rule h(1) sel lbl)+
  note first = this
  let ?cc = "\<lparr>rt_index_name = ''Journalist'', rt_columns = [''Comp'', ''Other'', ''Total''],
          rt_recs = [(''Amy'', [0, 1, 1]), (''Zed'', [1, 0, 1]), (''Total'', [1, 1, 2])]\<rparr>"
  have cc: "crosstab competitors_df = Inr ?cc" by code_simp
  have ne': "competitors_df \<noteq> []" by (simp add: competitors_df_def)
  have e7: "j_abt_comp competitors_df =
      Inr \<lparr>rt_index_name = ''Journalist'', rt_columns = [''Comp'', ''Other'', ''Total''],
           rt_recs = [(''Total'', [1, 1, 2]), (''Amy'', [0, 1, 1]), (''Zed'', [1, 0, 1])]\<rparr>"
    by code_simp
  have all': "list_all (\<lambda>x. \<not> startswith (Entity x) ''Client-'') competitors_df" by code_simp
  have m': "(''Total'', map (\<lambda>c. group_size (\<lambda>x. Entity x = c) competitors_df)
                          (sort (remdups (map Entity competitors_df)))
                     @ [int (length competitors_df)]) = (''Total'', [1, 1, 2])"
    by code_simp
  from margins_row_selected [OF cc ne'] have "\<exists>t7. j_abt_comp competitors_df = Inr t7
      \<and> set (rt_recs t7) =
           {r \<in> set (rt_recs ?cc).
              (client_cols ?cc = [] \<or> row_sum ?cc (client_cols ?cc) r = 0)
              \<and> (competitor_cols ?cc \<noteq> [] \<and> row_sum ?cc (competitor_cols ?cc) r \<noteq> 0)}
      \<and> (list_all (\<lambda>x. \<not> startswith (Entity x) ''Client-'') competitors_df \<longrightarrow>
           (''Total'', map (\<lambda>c. group_size (\<lambda>x. Entity x = c) competitors_df)
                          (sort (remdups (map Entity competitors_df)))
                     @ [int (length competitors_df)]) \<in> set (rt_recs t7))"
    by (elim conjE)
  then obtain t7 where
    h': "j_abt_comp competitors_df = Inr t7"
       "list_all (\<lambda>x. \<not> startswith (Entity x) ''Client-'') competitors_df \<longrightarrow>
           (''Total'', map (\<lambda>c. group_size (\<lambda>x. Entity x = c) competitors_df)
                          (sort (remdups (map Entity competitors_df)))
                     @ [int (length competitors_df)]) \<in> set (rt_recs t7)"
    by (elim exE conjE) (rule that)
  from h'(2) all' have sel': "(''Total'', [1, 1, 2]) \<in> set (rt_recs t7)" unfolding m' by (rule mp)
  from h'(1) e7 have lbl': "map fst (rt_recs t7) = [''Total'', ''Amy'', ''Zed'']" by auto
  have second: "\<exists>t7. j_abt_comp competitors_df = Inr t7
         \<and> (''Total'', [1, 1, 2]) \<in> set (rt_recs t7)
         \<and> map fst (rt_recs t7) = [''Total'', ''Amy'', ''Zed'']"
    by (intro exI [of _ t7] conjI) (rule h'(1) sel' lbl')+
  from ct ne all first cc ne' all' second show ?thesis by (intro conjI)
qed

section \<open>Properties of the Entity share of voice\<close>














lemma np_round2_decimals: "np_round2 x = of_int (round_half_even (x * 100)) / 100"
  by (simp add: np_round2_def)




section \<open>Properties of the workbook assembly\<close>

lemma cells_put: "ws_cells (put p f ws) q = (if q = p then f (ws_cells ws p) else ws_cells ws q)"
  by (simp add: put_def)

lemma merged_put: "ws_merged (put p f ws) = ws_merged ws"
  by (simp add: put_def)

lemma cells_fold_put:
  "ws_cells (foldl (\<lambda>w (c, x). put (r, c) (f x) w) ws (List.enumerate n xs)) (r', c')
     = (if r' = r \<and> n \<le> c' \<and> c' < n + length xs
        then f (xs ! (c' - n)) (ws_cells ws (r', c'))
        else ws_cells ws (r', c'))"
proof (induction xs arbitrary: ws n)
  case Nil
  then show ?case by auto
next
  case (Cons x xs)
  show ?case
    by (simp add: Cons.IH cells_put nth_Cons' Suc_diff_le) auto
qed

lemma merged_fold_put:
  "ws_merged (foldl (\<lambda>w (c, x). put (r, c) (f x) w) ws (List.enumerate n xs)) = ws_merged ws"
  by (induction xs arbitrary: ws n) (simp_all add: merged_put)

lemma cells_write_header:
  "ws_cells (write_header hr cols ws) (r, c)
     = (if r = hr \<and> 1 \<le> c \<and> c < 1 + length cols
        then hdr_cell (cols ! (c - 1)) (ws_cells ws (r, c))
        else ws_cells ws (r, c))"
  unfolding write_header_def by (rule cells_fold_put)

lemma cells_write_row:
  "ws_cells (write_row ri vs ws) (r, c)
     = (if r = ri \<and> 1 \<le> c \<and> c < 1 + length vs
        then data_cell (vs ! (c - 1)) (ws_cells ws (r, c))
        else ws_cells ws (r, c))"
  unfolding write_row_def by (rule cells_fold_put)

lemma merged_write_header: "ws_merged (write_header hr cols ws) = ws_merged ws"
  unfolding write_header_def by (rule merged_fold_put)

lemma merged_write_row: "ws_merged (write_row ri vs ws) = ws_merged ws"
  unfolding write_row_def by (rule merged_fold_put)

lemma cells_write_rows:
  "ws_cells (write_rows ds vals ws) (r, c)
     = (if ds \<le> r \<and> r < ds + length vals \<and> 1 \<le> c \<and> c < 1 + length (vals ! (r - ds))
        then data_cell (vals ! (r - ds) ! (c - 1)) (ws_cells ws (r, c))
        else ws_cells ws (r, c))"
proof (induction vals arbitrary: ws ds)
  case Nil
  then show ?case by (auto simp: write_rows_def)
next
  case (Cons v vals)
  have step: "write_rows ds (v # vals) ws = write_rows (Suc ds) vals (write_row ds v ws)"
    by (simp add: write_rows_def)
  show ?case
    unfolding step Cons.IH cells_write_row
    by (auto simp: nth_Cons' Suc_diff_le)
qed

lemma merged_write_rows: "ws_merged (write_rows ds vals ws) = ws_merged ws"
proof (induction vals arbitrary: ws ds)
  case Nil
  then show ?case by (simp add: write_rows_def)
next
  case (Cons v vals)
  have step: "write_rows ds (v # vals) ws = write_rows (Suc ds) vals (write_row ds v ws)"
    by (simp add: write_rows_def)
  show ?case unfolding step Cons.IH merged_write_row ..
qed

lemma add_styling_Inr:
  assumes "add_styling_to_worksheet ws df row comment = Inr ws'"
  shows "0 < length (df_columns df)"
    and "ws' = write_rows (row + 2) (df_values df)
                 (write_header (row + 1) (df_columns df)
                   ((put (row, 1) (title_cell comment) ws)
                      \<lparr>ws_merged := ws_merged ws @ [(row, 1, row, length (df_columns df))]\<rparr>))"
  using assms
  by (auto simp: add_styling_to_worksheet_def merge_cells_def Let_def merged_put split: if_splits)

lemma add_styling_merged:
  assumes "add_styling_to_worksheet ws df row comment = Inr ws'"
  shows "ws_merged ws' = ws_merged ws @ [(row, 1, row, length (df_columns df))]"
  unfolding add_styling_Inr(2) [OF assms]
  by (simp add: merged_write_rows merged_write_header)

lemma add_styling_cells:
  assumes "add_styling_to_worksheet ws df row comment = Inr ws'"
  shows "ws_cells ws' (r, c) =
     (if r = row \<and> c = 1 then title_cell comment (ws_cells ws (r, c))
      else if r = row + 1 \<and> 1 \<le> c \<and> c < 1 + length (df_columns df)
      then hdr_cell (df_columns df ! (c - 1)) (ws_cells ws (r, c))
      else if row + 2 \<le> r \<and> r < row + 2 + length (df_values df)
              \<and> 1 \<le> c \<and> c < 1 + length (df_values df ! (r - (row + 2)))
      then data_cell (df_values df ! (r - (row + 2)) ! (c - 1)) (ws_cells ws (r, c))
      else ws_cells ws (r, c))"
  unfolding add_styling_Inr(2) [OF assms]
  by (simp add: cells_write_rows cells_write_header cells_put)


lemma write_tables_Cons:
  assumes "write_tables ((df, comment) # rest) row ws = Inr ws'"
  obtains ws1 where "add_styling_to_worksheet ws df row comment = Inr ws1"
    and "write_tables rest (row + (length (df_values df) + 2) + 2) ws1 = Inr ws'"
  using assms by (auto split: sum.splits)

lemma write_tables_frame:
  "write_tables pairs row ws = Inr ws' \<Longrightarrow> r < row \<Longrightarrow> ws_cells ws' (r, c) = ws_cells ws (r, c)"
proof (induction pairs arbitrary: row ws)
  case Nil
  then show ?case by simp
next
  case (Cons p rest)
  obtain df comment where p: "p = (df, comment)" by (cases p)
  from Cons.prems(1) [unfolded p] obtain ws1 where
    a: "add_styling_to_worksheet ws df row comment = Inr ws1" and
    b: "write_tables rest (row + (length (df_values df) + 2) + 2) ws1 = Inr ws'"
    by (rule write_tables_Cons)
  from Cons.prems(2) have "r < row + (length (df_values df) + 2) + 2" by simp
  from Cons.IH [OF b this] have "ws_cells ws' (r, c) = ws_cells ws1 (r, c)" .
  also have "\<dots> = ws_cells ws (r, c)"
    using Cons.prems(2) by (simp add: add_styling_cells [OF a])
  finally show ?case .
qed

lemma write_tables_merged:
  "write_tables pairs row ws = Inr ws' \<Longrightarrow>
   ws_merged ws' =
     ws_merged ws
     @ map (\<lambda>k. (row + sum_list (map (\<lambda>p. length (df_values (fst p)) + 2 + 2) (take k pairs)), 1,
                  row + sum_list (map (\<lambda>p. length (df_values (fst p)) + 2 + 2) (take k pairs)),
                  length (df_columns (fst (pairs ! k)))))
           [0..<length pairs]"
proof (induction pairs arbitrary: row ws)
  case Nil
  then show ?case by simp
next
  case (Cons p rest)
  obtain df comment where p: "p = (df, comment)" by (cases p)
  from Cons.prems(1) [unfolded p] obtain ws1 where
    a: "add_styling_to_worksheet ws df row comment = Inr ws1" and
    b: "write_tables rest (row + (length (df_values df) + 2) + 2) ws1 = Inr ws'"
    by (rule write_tables_Cons)
  have "[0..<length (p # rest)] = 0 # map Suc [0..<length rest]"
    by (simp add: upt_conv_Cons map_Suc_upt del: upt_Suc)
  then show ?case
    unfolding Cons.IH [OF b] add_styling_merged [OF a]
    by (simp add: p comp_def add.assoc del: upt_Suc)
qed

lemma write_tables_cells:
  assumes "write_tables pairs row ws = Inr ws'" and "k < length pairs"
  shows "0 < length (df_columns (fst (pairs ! k)))
     \<and> cell_value (ws_cells ws'
          (row + sum_list (map (\<lambda>p. length (df_values (fst p)) + 2 + 2) (take k pairs)), 1))
         = Some (Str (snd (pairs ! k)))
     \<and> (\<forall>c<length (df_columns (fst (pairs ! k))).
          cell_value (ws_cells ws'
            (row + sum_list (map (\<lambda>p. length (df_values (fst p)) + 2 + 2) (take k pairs)) + 1, c + 1))
          = Some (Str (df_columns (fst (pairs ! k)) ! c)))
     \<and> (\<forall>i<length (df_values (fst (pairs ! k))). \<forall>c<length (df_values (fst (pairs ! k)) ! i).
          cell_value (ws_cells ws'
            (row + sum_list (map (\<lambda>p. length (df_values (fst p)) + 2 + 2) (take k pairs)) + 2 + i, c + 1))
          = Some (Val (df_values (fst (pairs ! k)) ! i ! c)))"
  using assms
proof (induction pairs arbitrary: row ws k)
  case Nil
  then show ?case by simp
next
  case (Cons p rest)
  obtain df comment where p: "p = (df, comment)" by (cases p)
  from Cons.prems(1) [unfolded p] obtain ws1 where
    a: "add_styling_to_worksheet ws df row comment = Inr ws1" and
    b: "write_tables rest (row + (length (df_values df) + 2) + 2) ws1 = Inr ws'"
    by (rule write_tables_Cons)
  show ?case
  proof (cases k)
    case 0
    have keep: "ws_cells ws' (r, c) = ws_cells ws1 (r, c)"
      if "r < row + (length (df_values df) + 2) + 2" for r c
      using write_tables_frame [OF b that] .
    have t: "cell_value (ws_cells ws' (row, 1)) = Some (Str comment)"
      by (simp add: keep add_styling_cells [OF a] title_cell_def)
    have h: "cell_value (ws_cells ws' (row + 1, c + 1)) = Some (Str (df_columns df ! c))"
      if "c < length (df_columns df)" for c
      using that by (simp add: keep add_styling_cells [OF a] hdr_cell_def)
    have d: "cell_value (ws_cells ws' (row + 2 + i, c + 1)) = Some (Val (df_values df ! i ! c))"
      if "i < length (df_values df)" "c < length (df_values df ! i)" for i c
      using that by (simp add: keep add_styling_cells [OF a] data_cell_def)
    from add_styling_Inr(1) [OF a] t h d show ?thesis
      by (simp add: 0 p)
  next
    case (Suc j)
    with Cons.prems(2) have j: "j < length rest" by simp
    from Cons.IH [OF b j] show ?thesis
      by (simp add: Suc p add.assoc add.left_commute)
  qed
qed


lemma merged_foldl_put:
  "ws_merged (foldl (\<lambda>w x. put (pos x) (change x) w) ws xs) = ws_merged ws"
  by (induction xs arbitrary: ws) (simp_all add: merged_put)

lemma merged_add_entity_info: "ws_merged (add_entity_info ws entity_info start_row) = ws_merged ws"
  unfolding add_entity_info_def split_def by (rule merged_foldl_put)

lemma write_tables_succeeds:
  "list_all (\<lambda>p. 0 < length (df_columns (fst p))) pairs \<Longrightarrow> \<exists>ws'. write_tables pairs row ws = Inr ws'"
proof (induction pairs arbitrary: row ws)
  case Nil
  then show ?case by simp
next
  case (Cons p rest)
  obtain df comment where p: "p = (df, comment)" by (cases p)
  from Cons.prems have c: "0 < length (df_columns df)" and r: "list_all (\<lambda>p. 0 < length (df_columns (fst p))) rest"
    by (simp_all add: p)
  from c obtain ws1 where a: "add_styling_to_worksheet ws df row comment = Inr ws1"
    by (auto simp: add_styling_to_worksheet_def merge_cells_def Let_def)
  from Cons.IH [OF r] obtain ws' where
    "write_tables rest (row + (length (df_values df) + 2) + 2) ws1 = Inr ws'" by blast
  with a show ?case by (auto simp: p)
qed

lemma multiple_dfs_succeeds:
  assumes "list_all (\<lambda>p. 0 < length (df_columns (fst p))) (zip df_list comments)"
  shows "\<exists>ws. multiple_dfs df_list sheet_name comments entity_info = Inr ws"
  unfolding multiple_dfs_def Let_def using write_tables_succeeds [OF assms] by blast

lemma take_zip_sum:
  assumes "k \<le> length xs" and "k \<le> length ys"
  shows "map (\<lambda>p. f (fst p)) (take k (zip xs ys)) = map f (take k xs)"
proof -
  have "map (\<lambda>p. f (fst p)) (take k (zip xs ys)) = map f (map fst (zip (take k xs) (take k ys)))"
    by (simp add: take_zip comp_def)
  also have "map fst (zip (take k xs) (take k ys)) = take k xs"
    using assms by (intro map_fst_zip) simp
  finally show ?thesis .
qed

text \<open>
  C9. Whenever the workbook is assembled, the first title row is \<open>1 + 6\<close> whatever
  the header text is, and for the \<open>k\<close>-th pair of frame and comment, with the title row
  that the row counts of the frames before it give: the \<open>k\<close>-th merged range is the
  title row from column 1 to the frame's column count, the comment stands in its first
  cell, the column labels stand in the row below, the values in the rows below that, and
  the next merged range starts (row count + 2) + 2 rows further down. There are as many
  merged ranges as pairs.
\<close>

theorem workbook_layout:
  assumes run: "multiple_dfs df_list sheet_name comments entity_info = Inr ws"
      and k1: "k < length df_list"
      and k2: "k < length comments"
      and row: "title_row = 1 + 6 + sum_list (map (\<lambda>df. length (df_values df) + 2 + 2) (take k df_list))"
  shows "length (ws_merged ws) = min (length df_list) (length comments)
       \<and> ws_merged ws ! k = (title_row, 1, title_row, length (df_columns (df_list ! k)))
       \<and> 0 < length (df_columns (df_list ! k))
       \<and> cell_value (ws_cells ws (title_row, 1)) = Some (Str (comments ! k))
       \<and> (\<forall>c<length (df_columns (df_list ! k)).
            cell_value (ws_cells ws (title_row + 1, c + 1)) = Some (Str (df_columns (df_list ! k) ! c)))
       \<and> (\<forall>i<length (df_values (df_list ! k)). \<forall>c<length (df_values (df_list ! k) ! i).
            cell_value (ws_cells ws (title_row + 2 + i, c + 1))
              = Some (Val (df_values (df_list ! k) ! i ! c)))
       \<and> (Suc k < min (length df_list) (length comments) \<longrightarrow>
            fst (ws_merged ws ! Suc k) = title_row + (length (df_values (df_list ! k)) + 2) + 2)"
proof -
  let ?pairs = "zip df_list comments"
  let ?ws0 = "add_entity_info \<lparr>ws_title = sheet_name, ws_cells = (\<lambda>pos. blank), ws_merged = []\<rparr>
                entity_info 1"
  let ?S = "\<lambda>k. 7 + sum_list (map (\<lambda>p. length (df_values (fst p)) + 2 + 2) (take k ?pairs))"
  from run have wt: "write_tables ?pairs 7 ?ws0 = Inr ws"
    by (simp add: multiple_dfs_def Let_def)
  have kp: "k < length ?pairs" using k1 k2 by simp
  have S: "?S j = 7 + sum_list (map (\<lambda>df. length (df_values df) + 2 + 2) (take j df_list))"
    if "j \<le> length df_list" "j \<le> length comments" for j
    using take_zip_sum [OF that, of "\<lambda>df. length (df_values df) + 2 + 2"] by simp
  have Sk: "?S k = title_row"
    using S [of k] k1 k2 row by simp
  have m: "ws_merged ws =
      map (\<lambda>k. (?S k, 1, ?S k, length (df_columns (fst (?pairs ! k))))) [0..<length ?pairs]"
    using write_tables_merged [OF wt] by (simp add: merged_add_entity_info)
  have a: "length (ws_merged ws) = min (length df_list) (length comments)"
    unfolding m by simp
  have b: "ws_merged ws ! k = (title_row, 1, title_row, length (df_columns (df_list ! k)))"
    unfolding m using kp k1 k2 Sk by simp
  have g: "fst (ws_merged ws ! Suc k) = title_row + (length (df_values (df_list ! k)) + 2) + 2"
    if next_k: "Suc k < min (length df_list) (length comments)"
  proof -
    from next_k have sk: "Suc k \<le> length df_list" "Suc k \<le> length comments" by simp_all
    have "fst (ws_merged ws ! Suc k) = ?S (Suc k)"
      unfolding m using next_k by simp
    also have "\<dots> = 7 + sum_list (map (\<lambda>df. length (df_values df) + 2 + 2) (take (Suc k) df_list))"
      by (rule S [OF sk])
    also have "\<dots> = title_row + (length (df_values (df_list ! k)) + 2) + 2"
      using k1 row by (simp add: take_Suc_conv_app_nth)
    finally show ?thesis .
  qed
  from write_tables_cells [OF wt kp] k1 k2 have c:
    "0 < length (df_columns (df_list ! k))"
    "cell_value (ws_cells ws (title_row, 1)) = Some (Str (comments ! k))"
    "\<forall>c<length (df_columns (df_list ! k)).
        cell_value (ws_cells ws (title_row + 1, c + 1)) = Some (Str (df_columns (df_list ! k) ! c))"
    "\<forall>i<length (df_values (df_list ! k)). \<forall>c<length (df_values (df_list ! k) ! i).
        cell_value (ws_cells ws (title_row + 2 + i, c + 1))
          = Some (Val (df_values (df_list ! k) ! i ! c))"
    unfolding Sk by simp_all
  from a b c g show ?thesis by blast
qed

theorem workbook_layout_witness:
  "\<exists>ws. multiple_dfs sample_frames ''Results'' sample_comments sample_info = Inr ws
      \<and> length (ws_merged ws) = 2
      \<and> ws_merged ws ! 0 = (7, 1, 7, 2)
      \<and> ws_merged ws ! 1 = (13, 1, 13, 1)
      \<and> cell_value (ws_cells ws (7, 1)) = Some (Str ''SOV Table'')
      \<and> cell_value (ws_cells ws (13, 1)) = Some (Str ''Month-on-Month Table'')
      \<and> cell_value (ws_cells ws (14, 1)) = Some (Str ''Total'')
      \<and> cell_value (ws_cells ws (15, 1)) = Some (Val 5)"
proof -
  have "list_all (\<lambda>p. 0 < length (df_columns (fst p))) (zip sample_frames sample_comments)"
    by (simp add: sample_frames_def sample_comments_def)
  from multiple_dfs_succeeds [OF this] obtain ws where
    run: "multiple_dfs sample_frames ''Results'' sample_comments sample_info = Inr ws"
    by blast
  have k0: "0 < length sample_frames" "0 < length sample_comments"
    and k1: "1 < length sample_frames" "1 < length sample_comments"
    by (simp_all add: sample_frames_def sample_comments_def)
  have r0: "(7::nat) = 1 + 6 + sum_list (map (\<lambda>df. length (df_values df) + 2 + 2) (take 0 sample_frames))"
    by simp
  have r1: "(13::nat) = 1 + 6 + sum_list (map (\<lambda>df. length (df_values df) + 2 + 2) (take 1 sample_frames))"
    by (simp add: sample_frames_def)
  note first = workbook_layout [OF run k0 r0]
  note second = workbook_layout [OF run k1 r1]
  from first have a: "length (ws_merged ws) = 2" "ws_merged ws ! 0 = (7, 1, 7, 2)"
    "cell_value (ws_cells ws (7, 1)) = Some (Str ''SOV Table'')"
    by (simp_all add: sample_frames_def sample_comments_def)
  from second have b: "ws_merged ws ! 1 = (13, 1, 13, 1)"
    "cell_value (ws_cells ws (13, 1)) = Some (Str ''Month-on-Month Table'')"
    by (simp_all add: sample_frames_def sample_comments_def)
  from second have "\<forall>c<length (df_columns (sample_frames ! 1)).
            cell_value (ws_cells ws (13 + 1, c + 1)) = Some (Str (df_columns (sample_frames ! 1) ! c))"
    by blast
  then have c: "cell_value (ws_cells ws (14, 1)) = Some (Str ''Total'')"
    by (simp add: sample_frames_def)
  from second have "\<forall>i<length (df_values (sample_frames ! 1)). \<forall>c<length (df_values (sample_frames ! 1) ! i).
            cell_value (ws_cells ws (13 + 2 + i, c + 1))
              = Some (Val (df_values (sample_frames ! 1) ! i ! c))"
    by blast
  then have d: "cell_value (ws_cells ws (15, 1)) = Some (Val 5)"
    by (simp add: sample_frames_def)
  show ?thesis
    by (intro exI [of _ ws] conjI) (rule run a b c d)+
qed

section \<open>The empty table\<close>

text \<open>
  C3, as claimed: the Report Pipeline completes on a table without rows. It does not: the
  run ends with an error.
\<close>

theorem report_tables_empty_table_raises:
  "isl (report_tables [])"
  by code_simp

text \<open>
  C3, amended. On a table without rows no check rejects the input and every
  cross-tabulation is the empty table, to which pandas adds no margins; the run then ends
  at the Entity share of voice, where the column \<open>News Count\<close> is looked up in a table
  without columns, so that no summary table and no row of totals is produced.
\<close>

theorem empty_table_ends_at_Entity_SOV:
  "ct_rows (pd_crosstab rk ck []) = [] \<and> ct_columns (pd_crosstab rk ck []) = []
   \<and> pd_crosstab_margins same margins_name rk ck [] = Inr \<lparr>ct_columns = [], ct_rows = []\<rparr>
   \<and> Entity_SOV [] = Inl (KeyError ''News Count'')
   \<and> report_tables [] = Inl (KeyError ''News Count'')"
  by (simp add: pd_crosstab_def pd_crosstab_margins_def Entity_SOV_def report_tables_def
      drop_column_def)

end
